theory Spec2Isabelle
  imports Main "HOL-Library.Sublist"
begin

section \<open>Python string primitives used by the orchestrator\<close>

text \<open>
  The orchestrator of \<^verbatim>\<open>OrchestratorAgent/orchestrator.py\<close> works on Python strings
  with \<^verbatim>\<open>str.lower\<close>, the substring test \<^verbatim>\<open>in\<close>, \<^verbatim>\<open>str.replace\<close> and \<^verbatim>\<open>str.split\<close>.
  A character is a code point below 256 (Latin-1). There \<^verbatim>\<open>str.lower\<close> maps the
  letters A-Z and the capital letters 0xC0-0xDE (all but the multiplication sign
  0xD7) to the letters 32 code points higher and leaves every other character; the
  whitespace of \<^verbatim>\<open>split()\<close> is tab, line feed, vertical tab, form feed, carriage
  return, the separators 0x1C-0x1F, the space, the next-line control 0x85 and the
  no-break space 0xA0.
\<close>

definition latin1_upper :: string where
  "latin1_upper =
     ''ABCDEFGHIJKLMNOPQRSTUVWXYZ'' @
       [CHR 0xC0, CHR 0xC1, CHR 0xC2, CHR 0xC3, CHR 0xC4, CHR 0xC5, CHR 0xC6, CHR 0xC7,
        CHR 0xC8, CHR 0xC9, CHR 0xCA, CHR 0xCB, CHR 0xCC, CHR 0xCD, CHR 0xCE, CHR 0xCF,
        CHR 0xD0, CHR 0xD1, CHR 0xD2, CHR 0xD3, CHR 0xD4, CHR 0xD5, CHR 0xD6, CHR 0xD8,
        CHR 0xD9, CHR 0xDA, CHR 0xDB, CHR 0xDC, CHR 0xDD, CHR 0xDE]"

definition latin1_lower :: string where
  "latin1_lower =
     ''abcdefghijklmnopqrstuvwxyz'' @
       [CHR 0xE0, CHR 0xE1, CHR 0xE2, CHR 0xE3, CHR 0xE4, CHR 0xE5, CHR 0xE6, CHR 0xE7,
        CHR 0xE8, CHR 0xE9, CHR 0xEA, CHR 0xEB, CHR 0xEC, CHR 0xED, CHR 0xEE, CHR 0xEF,
        CHR 0xF0, CHR 0xF1, CHR 0xF2, CHR 0xF3, CHR 0xF4, CHR 0xF5, CHR 0xF6, CHR 0xF8,
        CHR 0xF9, CHR 0xFA, CHR 0xFB, CHR 0xFC, CHR 0xFD, CHR 0xFE]"

definition lower_char :: "char \<Rightarrow> char" where
  "lower_char c =
     (case map_of (zip latin1_upper latin1_lower) c of
        Some l \<Rightarrow> l
      | None \<Rightarrow> c)"

definition lower :: "string \<Rightarrow> string" where
  "lower s = map lower_char s"

text \<open>\<^verbatim>\<open>sub in s\<close>: \<open>sub\<close> occurs in \<open>s\<close> as a contiguous substring.\<close>

fun contains :: "string \<Rightarrow> string \<Rightarrow> bool" where
  "contains sub [] = (sub = [])"
| "contains sub (c # cs) = (prefix sub (c # cs) \<or> contains sub cs)"

text \<open>
  \<^verbatim>\<open>s.replace(old, new)\<close>: every non-overlapping occurrence of \<open>old\<close>, scanning from
  the left, is replaced. With an empty \<open>old\<close> Python inserts \<open>new\<close> before every
  character and at the end.
\<close>

function replace_str :: "string \<Rightarrow> string \<Rightarrow> string \<Rightarrow> string" where
  "replace_str old new s =
     (if old = [] then new @ concat (map (\<lambda>c. c # new) s)
      else if s = [] then []
      else if prefix old s then new @ replace_str old new (drop (length old) s)
      else hd s # replace_str old new (tl s))"
  by pat_completeness auto
termination
  by (relation "measure (\<lambda>(old, new, s). length s)") auto

declare replace_str.simps [simp del]

definition is_space :: "char \<Rightarrow> bool" where
  "is_space c =
     (c \<in> set [CHR 0x09, CHR 0x0A, CHR 0x0B, CHR 0x0C, CHR 0x0D,
               CHR 0x1C, CHR 0x1D, CHR 0x1E, CHR 0x1F, CHR '' '',
               CHR 0x85, CHR 0xA0])"

text \<open>\<^verbatim>\<open>s.split()\<close>: the maximal runs of non-whitespace characters, in order.\<close>

function split_ws :: "string \<Rightarrow> string list" where
  "split_ws s =
     (case dropWhile is_space s of
        [] \<Rightarrow> []
      | c # r \<Rightarrow>
          (c # takeWhile (\<lambda>x. \<not> is_space x) r) #
          split_ws (dropWhile (\<lambda>x. \<not> is_space x) r))"
  by pat_completeness auto
termination
proof (relation "measure length", goal_cases)
  case 1
  show ?case by simp
next
  case (2 s c r)
  have "length (dropWhile (\<lambda>x. \<not> is_space x) r) \<le> length r"
    by (rule length_dropWhile_le)
  moreover have "length (dropWhile is_space s) \<le> length s"
    by (rule length_dropWhile_le)
  ultimately show ?case using 2 by simp
qed

declare split_ws.simps [simp del]

datatype error = IndexError | ReError | LLMError

text \<open>
  \<^verbatim>\<open>name.split()[0] if ' ' in name else name\<close>: indexing the empty list that
  \<^verbatim>\<open>split()\<close> returns for a name of whitespace only raises \<^verbatim>\<open>IndexError\<close>.
\<close>

definition first_name :: "string \<Rightarrow> error + string" where
  "first_name n =
     (if CHR '' '' \<in> set n
      then (case split_ws n of [] \<Rightarrow> Inl IndexError | w # _ \<Rightarrow> Inr w)
      else Inr n)"

section \<open>The document state\<close>

text \<open>
  The orchestrator keeps the document in the dictionary \<^verbatim>\<open>self.state\<close>. Its entries are
  dictionaries themselves; a key the code reads with \<^verbatim>\<open>.get\<close> is an optional field
  here. Fields the revision code never inspects are kept as an association list.
  A text field or a list that is missing behaves in every test of the code like the
  empty one (\<^verbatim>\<open>'draft' in self.state and self.state['draft']\<close>), so these are plain
  strings and lists.
\<close>

type_synonym fields = "(string \<times> string) list"

text \<open>A character or a location: a dictionary with a \<^verbatim>\<open>name\<close>.\<close>

record entity =
  name :: "string option"
  details :: fields

text \<open>A dialogue line, top-level (with a scene number) or embedded in a scene.\<close>

record dialogue =
  character_name :: "string option"
  dlg_scene_number :: "int option"
  line :: string

record scene =
  scene_number :: "int option"
  environmental_context :: string
  subject_action :: string
  camera :: fields
  dialogue_lines :: "dialogue list"

record state =
  title :: string
  genre :: string
  tone :: string
  draft :: string
  visual_lookbook :: fields
  characters :: "entity list"
  locations :: "entity list"
  dialogue_scenes :: "dialogue list"
  scenes :: "scene list"
  number_of_scenes :: "nat option"
  allow_scene_increase :: "bool option"
  feedback_keys :: "string \<rightharpoonup> string"

section \<open>Propagation of a character rename\<close>

text \<open>
  \<^verbatim>\<open>_propagate_character_name_change\<close>. The loop over dialogue lines rewrites, in
  place, the attribution of every line whose \<^verbatim>\<open>character_name\<close> equals the old name.
\<close>

fun rename_dialogue_loop :: "string \<Rightarrow> string \<Rightarrow> dialogue list \<Rightarrow> dialogue list" where
  "rename_dialogue_loop old_name new_name [] = []"
| "rename_dialogue_loop old_name new_name (d # ds) =
     (if character_name d = Some old_name
      then d\<lparr>character_name := Some new_name\<rparr>
      else d) # rename_dialogue_loop old_name new_name ds"

text \<open>
  One free-text field: skipped when empty; the full name is tried first, the first
  name only when the full name does not occur and the first name differs from it.
\<close>

definition rename_text :: "string \<Rightarrow> string \<Rightarrow> string \<Rightarrow> string \<Rightarrow> string \<Rightarrow> string" where
  "rename_text old_name new_name old_first_name new_first_name text =
     (if text = [] then text
      else if contains old_name text then replace_str old_name new_name text
      else if old_first_name \<noteq> old_name \<and> contains old_first_name text
           then replace_str old_first_name new_first_name text
      else text)"

text \<open>
  The body of the loop over scenes. The embedded dialogue lines are rewritten first;
  then both first names are computed, which may raise; the scene as mutated so far
  is what the state holds when it does.
\<close>

definition rename_in_scene :: "string \<Rightarrow> string \<Rightarrow> scene \<Rightarrow> (error \<times> scene) + scene" where
  "rename_in_scene old_name new_name sc =
     (let sc1 = sc\<lparr>dialogue_lines := rename_dialogue_loop old_name new_name (dialogue_lines sc)\<rparr>
      in case first_name old_name of
           Inl e \<Rightarrow> Inl (e, sc1)
         | Inr old_first_name \<Rightarrow>
             (case first_name new_name of
                Inl e \<Rightarrow> Inl (e, sc1)
              | Inr new_first_name \<Rightarrow>
                  Inr (sc1\<lparr>subject_action :=
                              rename_text old_name new_name old_first_name new_first_name
                                (subject_action sc1),
                            environmental_context :=
                              rename_text old_name new_name old_first_name new_first_name
                                (environmental_context sc1)\<rparr>)))"

fun rename_scene_loop ::
  "string \<Rightarrow> string \<Rightarrow> scene list \<Rightarrow> (error \<times> scene list) + scene list" where
  "rename_scene_loop old_name new_name [] = Inr []"
| "rename_scene_loop old_name new_name (sc # scs) =
     (case rename_in_scene old_name new_name sc of
        Inl (e, sc') \<Rightarrow> Inl (e, sc' # scs)
      | Inr sc' \<Rightarrow>
          (case rename_scene_loop old_name new_name scs of
             Inl (e, scs') \<Rightarrow> Inl (e, sc' # scs')
           | Inr scs' \<Rightarrow> Inr (sc' # scs')))"

text \<open>The draft: skipped when empty, otherwise the first names are computed again.\<close>

definition rename_in_draft :: "string \<Rightarrow> string \<Rightarrow> string \<Rightarrow> error + string" where
  "rename_in_draft old_name new_name d =
     (if d = [] then Inr d
      else case first_name old_name of
             Inl e \<Rightarrow> Inl e
           | Inr old_first_name \<Rightarrow>
               (case first_name new_name of
                  Inl e \<Rightarrow> Inl e
                | Inr new_first_name \<Rightarrow>
                    Inr (rename_text old_name new_name old_first_name new_first_name d)))"

text \<open>
  The whole propagation. \<open>Inl (e, st')\<close> is the exception \<open>e\<close> leaving the method with
  the state mutated as far as \<open>st'\<close>; \<open>Inr st'\<close> is the normal return.
\<close>

definition propagate_character_name_change ::
  "string \<Rightarrow> string \<Rightarrow> state \<Rightarrow> (error \<times> state) + state" where
  "propagate_character_name_change old_name new_name st =
     (let st1 = st\<lparr>dialogue_scenes :=
                     rename_dialogue_loop old_name new_name (dialogue_scenes st)\<rparr>
      in case rename_scene_loop old_name new_name (scenes st1) of
           Inl (e, scs) \<Rightarrow> Inl (e, st1\<lparr>scenes := scs\<rparr>)
         | Inr scs \<Rightarrow>
             (let st2 = st1\<lparr>scenes := scs\<rparr>
              in case rename_in_draft old_name new_name (draft st2) of
                   Inl e \<Rightarrow> Inl (e, st2)
                 | Inr d \<Rightarrow> Inr (st2\<lparr>draft := d\<rparr>)))"

section \<open>Propagation of a location rename\<close>

text \<open>
  \<^verbatim>\<open>_propagate_location_name_change\<close> substitutes with Python's regular-expression
  library: \<^verbatim>\<open>re.compile(re.escape(old_name), re.IGNORECASE).sub(new_name, text)\<close>.
  The library is not part of the repository; the substitution is the parameter
  \<open>re_sub old_name new_name text\<close>, and \<open>Inl\<close> is \<^verbatim>\<open>re.error\<close> (raised for a
  replacement template with a bad escape).
\<close>

type_synonym re_sub = "string \<Rightarrow> string \<Rightarrow> string \<Rightarrow> error + string"

fun location_scene_loop ::
  "re_sub \<Rightarrow> string \<Rightarrow> string \<Rightarrow> scene list \<Rightarrow> (error \<times> scene list) + scene list" where
  "location_scene_loop re_sub old_name new_name [] = Inr []"
| "location_scene_loop re_sub old_name new_name (sc # scs) =
     (if environmental_context sc \<noteq> [] \<and>
         contains (lower old_name) (lower (environmental_context sc))
      then (case re_sub old_name new_name (environmental_context sc) of
              Inl e \<Rightarrow> Inl (e, sc # scs)
            | Inr updated_context \<Rightarrow>
                (case location_scene_loop re_sub old_name new_name scs of
                   Inl (e, scs') \<Rightarrow>
                     Inl (e, sc\<lparr>environmental_context := updated_context\<rparr> # scs')
                 | Inr scs' \<Rightarrow>
                     Inr (sc\<lparr>environmental_context := updated_context\<rparr> # scs')))
      else (case location_scene_loop re_sub old_name new_name scs of
              Inl (e, scs') \<Rightarrow> Inl (e, sc # scs')
            | Inr scs' \<Rightarrow> Inr (sc # scs')))"

definition propagate_location_name_change ::
  "re_sub \<Rightarrow> string \<Rightarrow> string \<Rightarrow> state \<Rightarrow> (error \<times> state) + state" where
  "propagate_location_name_change re_sub old_name new_name st =
     (case location_scene_loop re_sub old_name new_name (scenes st) of
        Inl (e, scs) \<Rightarrow> Inl (e, st\<lparr>scenes := scs\<rparr>)
      | Inr scs \<Rightarrow>
          (let st1 = st\<lparr>scenes := scs\<rparr>
           in if draft st1 \<noteq> [] \<and> contains (lower old_name) (lower (draft st1))
              then (case re_sub old_name new_name (draft st1) of
                      Inl e \<Rightarrow> Inl (e, st1)
                    | Inr updated_draft \<Rightarrow> Inr (st1\<lparr>draft := updated_draft\<rparr>))
              else Inr st1))"

section \<open>Change proposals\<close>

text \<open>
  Each patch step asks the language model for one structured change
  (\<^verbatim>\<open>llm.invoke(prompt)\<close>). The reply is an input of the model: \<open>Inl\<close> when the call
  raises, \<open>Inr\<close> the change otherwise. The Pydantic classes \<^verbatim>\<open>Character\<close>,
  \<^verbatim>\<open>Location\<close>, \<^verbatim>\<open>Dialogue\<close> and \<^verbatim>\<open>Scene\<close> of the payloads are not in the
  repository's files; a character or location payload is a \<open>model\<close> with the
  \<^verbatim>\<open>name\<close> the code reads, dumped to a dictionary by \<open>model_dump\<close>; a scene payload
  is taken as the dictionary \<^verbatim>\<open>model_dump()\<close> returns.
\<close>

datatype action = Add | Modify | Remove

datatype scene_action = SceneAdd | SceneModify | SceneRemove | InsertBetween

datatype outcome = Applied | Warning | Failed

record model =
  model_name :: string
  model_details :: fields

definition model_dump :: "model \<Rightarrow> entity" where
  "model_dump m = \<lparr>name = Some (model_name m), details = model_details m\<rparr>"

record location_change =
  lc_action :: action
  lc_target_name :: "string option"
  new_location :: "model option"

record character_change =
  cc_action :: action
  cc_target_name :: "string option"
  new_character :: "model option"

record dialogue_identification =
  target_index :: "int option"
  target_character :: "string option"

record dialogue_model =
  dm_character_name :: string
  dm_line :: string

record dialogue_change =
  dc_action :: action
  identification :: "dialogue_identification option"
  new_dialogue :: "dialogue_model option"
  modified_line :: "string option"
  dc_scene_number :: "int option"

record scene_change =
  sc_action :: scene_action
  target_scene_number :: "int option"
  insert_after_scene :: "int option"
  num_scenes_to_insert :: "int option"
  new_scenes :: "scene list option"
  new_scene :: "scene option"

text \<open>Python truthiness of an optional string and of an optional integer.\<close>

definition truthy_str :: "string option \<Rightarrow> bool" where
  "truthy_str s = (case s of None \<Rightarrow> False | Some t \<Rightarrow> t \<noteq> [])"

definition truthy_int :: "int option \<Rightarrow> bool" where
  "truthy_int i = (case i of None \<Rightarrow> False | Some n \<Rightarrow> n \<noteq> 0)"

text \<open>\<^verbatim>\<open>d.get('name', '')\<close> and \<^verbatim>\<open>d.get('character_name', '')\<close>.\<close>

definition get_name :: "entity \<Rightarrow> string" where
  "get_name e = (case name e of None \<Rightarrow> [] | Some n \<Rightarrow> n)"

definition get_character_name :: "dialogue \<Rightarrow> string" where
  "get_character_name d = (case character_name d of None \<Rightarrow> [] | Some n \<Rightarrow> n)"

text \<open>
  The search loops \<^verbatim>\<open>for i, x in enumerate(xs): if ...: ...; break\<close>: the index of
  the first match, if any.
\<close>

fun find_by_name :: "string \<Rightarrow> entity list \<Rightarrow> nat option" where
  "find_by_name target [] = None"
| "find_by_name target (e # es) =
     (if lower (get_name e) = lower target then Some 0
      else map_option Suc (find_by_name target es))"

fun find_by_character :: "string \<Rightarrow> dialogue list \<Rightarrow> nat option" where
  "find_by_character target [] = None"
| "find_by_character target (d # ds) =
     (if lower (get_character_name d) = lower target then Some 0
      else map_option Suc (find_by_character target ds))"

fun find_by_number :: "int \<Rightarrow> scene list \<Rightarrow> nat option" where
  "find_by_number n [] = None"
| "find_by_number n (sc # scs) =
     (if scene_number sc = Some n then Some 0
      else map_option Suc (find_by_number n scs))"

text \<open>\<^verbatim>\<open>xs.pop(i)\<close> for an index in range: the list without its element at \<open>i\<close>.\<close>

definition pop :: "nat \<Rightarrow> 'a list \<Rightarrow> 'a list" where
  "pop i xs = take i xs @ drop (Suc i) xs"

section \<open>The entity patchers\<close>

text \<open>
  Each patcher takes the model's reply, the original collection (the caller passes
  the state's own) and the state; it returns the state with the collection written
  back, what it reported (\<^verbatim>\<open>[OK]\<close>, \<^verbatim>\<open>[WARNING]\<close> or \<^verbatim>\<open>[ERROR]\<close>), and the rename
  it announced with \<^verbatim>\<open>[INFO] ... name changed\<close>, if any. The patch works on a copy
  of the collection; an exception inside the \<^verbatim>\<open>try\<close> block writes the original
  collection back, whatever the propagation has already rewritten in place.
\<close>

type_synonym patch_result = "state \<times> outcome \<times> (string \<times> string) option"

definition modify_location ::
  "re_sub \<Rightarrow> string \<Rightarrow> model \<Rightarrow> entity list \<Rightarrow> state \<Rightarrow> patch_result" where
  "modify_location re_sub target m current_locations st =
     (case find_by_name target current_locations of
        None \<Rightarrow> (st\<lparr>locations := current_locations\<rparr>, Warning, None)
      | Some i \<Rightarrow>
          (let old_name = name (current_locations ! i);
               new_name = model_name m;
               updated_locations = current_locations[i := model_dump m]
           in if truthy_str old_name \<and> old_name \<noteq> Some new_name
              then (case propagate_location_name_change re_sub (get_name (current_locations ! i))
                           new_name st of
                      Inl (e, st') \<Rightarrow>
                        (st'\<lparr>locations := current_locations\<rparr>, Failed,
                         Some (get_name (current_locations ! i), new_name))
                    | Inr st' \<Rightarrow>
                        (st'\<lparr>locations := updated_locations\<rparr>, Applied,
                         Some (get_name (current_locations ! i), new_name)))
              else (st\<lparr>locations := updated_locations\<rparr>, Applied, None)))"

definition update_specific_location ::
  "re_sub \<Rightarrow> error + location_change \<Rightarrow> entity list \<Rightarrow> state \<Rightarrow> patch_result" where
  "update_specific_location re_sub reply original_locations st =
     (let current_locations = original_locations
      in case reply of
           Inl e \<Rightarrow> (st\<lparr>locations := current_locations\<rparr>, Failed, None)
         | Inr change \<Rightarrow>
             (case lc_action change of
                Add \<Rightarrow>
                  (case new_location change of
                     Some m \<Rightarrow>
                       (st\<lparr>locations := current_locations @ [model_dump m]\<rparr>, Applied, None)
                   | None \<Rightarrow> (st\<lparr>locations := current_locations\<rparr>, Warning, None))
              | Modify \<Rightarrow>
                  (case (lc_target_name change, new_location change) of
                     (Some target, Some m) \<Rightarrow>
                       (if target \<noteq> []
                        then modify_location re_sub target m current_locations st
                        else (st\<lparr>locations := current_locations\<rparr>, Warning, None))
                   | _ \<Rightarrow> (st\<lparr>locations := current_locations\<rparr>, Warning, None))
              | Remove \<Rightarrow>
                  (case lc_target_name change of
                     Some target \<Rightarrow>
                       (if target \<noteq> []
                        then (case find_by_name target current_locations of
                                Some i \<Rightarrow>
                                  (st\<lparr>locations := pop i current_locations\<rparr>, Applied, None)
                              | None \<Rightarrow>
                                  (st\<lparr>locations := current_locations\<rparr>, Warning, None))
                        else (st\<lparr>locations := current_locations\<rparr>, Warning, None))
                   | None \<Rightarrow> (st\<lparr>locations := current_locations\<rparr>, Warning, None))))"

definition modify_character ::
  "string \<Rightarrow> model \<Rightarrow> entity list \<Rightarrow> state \<Rightarrow> patch_result" where
  "modify_character target m current_characters st =
     (case find_by_name target current_characters of
        None \<Rightarrow> (st\<lparr>characters := current_characters\<rparr>, Warning, None)
      | Some i \<Rightarrow>
          (let old_name = name (current_characters ! i);
               new_name = model_name m;
               updated_characters = current_characters[i := model_dump m]
           in if truthy_str old_name \<and> old_name \<noteq> Some new_name
              then (case propagate_character_name_change (get_name (current_characters ! i))
                           new_name st of
                      Inl (e, st') \<Rightarrow>
                        (st'\<lparr>characters := current_characters\<rparr>, Failed,
                         Some (get_name (current_characters ! i), new_name))
                    | Inr st' \<Rightarrow>
                        (st'\<lparr>characters := updated_characters\<rparr>, Applied,
                         Some (get_name (current_characters ! i), new_name)))
              else (st\<lparr>characters := updated_characters\<rparr>, Applied, None)))"

definition update_specific_character ::
  "error + character_change \<Rightarrow> entity list \<Rightarrow> state \<Rightarrow> patch_result" where
  "update_specific_character reply original_characters st =
     (let current_characters = original_characters
      in case reply of
           Inl e \<Rightarrow> (st\<lparr>characters := current_characters\<rparr>, Failed, None)
         | Inr change \<Rightarrow>
             (case cc_action change of
                Add \<Rightarrow>
                  (case new_character change of
                     Some m \<Rightarrow>
                       (st\<lparr>characters := current_characters @ [model_dump m]\<rparr>, Applied, None)
                   | None \<Rightarrow> (st\<lparr>characters := current_characters\<rparr>, Warning, None))
              | Modify \<Rightarrow>
                  (case (cc_target_name change, new_character change) of
                     (Some target, Some m) \<Rightarrow>
                       (if target \<noteq> []
                        then modify_character target m current_characters st
                        else (st\<lparr>characters := current_characters\<rparr>, Warning, None))
                   | _ \<Rightarrow> (st\<lparr>characters := current_characters\<rparr>, Warning, None))
              | Remove \<Rightarrow>
                  (case cc_target_name change of
                     Some target \<Rightarrow>
                       (if target \<noteq> []
                        then (case find_by_name target current_characters of
                                Some i \<Rightarrow>
                                  (st\<lparr>characters := pop i current_characters\<rparr>, Applied, None)
                              | None \<Rightarrow>
                                  (st\<lparr>characters := current_characters\<rparr>, Warning, None))
                        else (st\<lparr>characters := current_characters\<rparr>, Warning, None))
                   | None \<Rightarrow> (st\<lparr>characters := current_characters\<rparr>, Warning, None))))"

text \<open>
  \<^verbatim>\<open>_update_specific_dialogue\<close>. A line is identified by a 1-based index when
  \<^verbatim>\<open>target_index\<close> is truthy (not \<^verbatim>\<open>None\<close> and not 0), and only otherwise by the
  first line of \<^verbatim>\<open>target_character\<close>; the \<^verbatim>\<open>modify\<close> and \<^verbatim>\<open>remove\<close> branches locate
  the line the same way.
\<close>

definition locate_dialogue :: "dialogue_identification \<Rightarrow> dialogue list \<Rightarrow> nat option" where
  "locate_dialogue ident updated_dialogue =
     (if truthy_int (target_index ident)
      then (case target_index ident of
              None \<Rightarrow> None
            | Some n \<Rightarrow>
                (let idx = n - 1
                 in if 0 \<le> idx \<and> idx < int (length updated_dialogue)
                    then Some (nat idx) else None))
      else if truthy_str (target_character ident)
      then (case target_character ident of
              None \<Rightarrow> None
            | Some c \<Rightarrow> find_by_character c updated_dialogue)
      else None)"

definition set_line :: "nat \<Rightarrow> string \<Rightarrow> dialogue list \<Rightarrow> dialogue list" where
  "set_line i text ds = ds[i := (ds ! i)\<lparr>line := text\<rparr>]"

definition update_specific_dialogue ::
  "error + dialogue_change \<Rightarrow> dialogue list \<Rightarrow> state \<Rightarrow> state \<times> outcome" where
  "update_specific_dialogue reply original_dialogue_scenes st =
     (let current_dialogue = original_dialogue_scenes
      in case reply of
           Inl e \<Rightarrow> (st\<lparr>dialogue_scenes := current_dialogue\<rparr>, Failed)
         | Inr change \<Rightarrow>
             (case dc_action change of
                Add \<Rightarrow>
                  (case new_dialogue change of
                     Some nd \<Rightarrow>
                       (let new_line =
                              \<lparr>character_name = Some (dm_character_name nd),
                               dlg_scene_number =
                                 Some (if truthy_int (dc_scene_number change)
                                       then (case dc_scene_number change of
                                               Some n \<Rightarrow> n | None \<Rightarrow> 0)
                                       else int (length current_dialogue) + 1),
                               line = dm_line nd\<rparr>
                        in (st\<lparr>dialogue_scenes := current_dialogue @ [new_line]\<rparr>, Applied))
                   | None \<Rightarrow> (st\<lparr>dialogue_scenes := current_dialogue\<rparr>, Warning))
              | Modify \<Rightarrow>
                  (case (identification change, modified_line change) of
                     (Some ident, Some text) \<Rightarrow>
                       (if text \<noteq> []
                        then (case locate_dialogue ident current_dialogue of
                                Some i \<Rightarrow>
                                  (st\<lparr>dialogue_scenes := set_line i text current_dialogue\<rparr>,
                                   Applied)
                              | None \<Rightarrow> (st\<lparr>dialogue_scenes := current_dialogue\<rparr>, Warning))
                        else (st\<lparr>dialogue_scenes := current_dialogue\<rparr>, Warning))
                   | _ \<Rightarrow> (st\<lparr>dialogue_scenes := current_dialogue\<rparr>, Warning))
              | Remove \<Rightarrow>
                  (case identification change of
                     Some ident \<Rightarrow>
                       (case locate_dialogue ident current_dialogue of
                          Some i \<Rightarrow>
                            (st\<lparr>dialogue_scenes := pop i current_dialogue\<rparr>, Applied)
                        | None \<Rightarrow> (st\<lparr>dialogue_scenes := current_dialogue\<rparr>, Warning))
                   | None \<Rightarrow> (st\<lparr>dialogue_scenes := current_dialogue\<rparr>, Warning))))"

section \<open>The scene sequencer\<close>

text \<open>
  \<^verbatim>\<open>_update_specific_scene\<close>, action \<^verbatim>\<open>insert_between\<close>. The scenes to insert are the
  list \<^verbatim>\<open>new_scenes\<close> when it is given and not empty, else the single \<^verbatim>\<open>new_scene\<close>.
  The field \<^verbatim>\<open>num_scenes_to_insert\<close> is read into a local variable that nothing uses.
\<close>

definition scenes_to_insert :: "scene_change \<Rightarrow> scene list" where
  "scenes_to_insert change =
     (case new_scenes change of
        Some (s # ss) \<Rightarrow> s # ss
      | _ \<Rightarrow> (case new_scene change of Some s \<Rightarrow> [s] | None \<Rightarrow> []))"

text \<open>
  \<^verbatim>\<open>for i, new_scene in enumerate(scenes_to_insert):
      new_scene['scene_number'] = insert_after + 1 + i\<close>
\<close>

fun assign_numbers :: "int \<Rightarrow> nat \<Rightarrow> scene list \<Rightarrow> scene list" where
  "assign_numbers insert_after i [] = []"
| "assign_numbers insert_after i (s # ss) =
     s\<lparr>scene_number := Some (insert_after + 1 + int i)\<rparr> #
     assign_numbers insert_after (Suc i) ss"

text \<open>
  \<^verbatim>\<open>for scene in updated_scenes[insert_index:]:
      scene['scene_number'] = scene.get('scene_number', 0) + len(scenes_to_insert)\<close>
\<close>

definition bump_number :: "nat \<Rightarrow> scene \<Rightarrow> scene" where
  "bump_number k s =
     s\<lparr>scene_number := Some ((case scene_number s of None \<Rightarrow> 0 | Some n \<Rightarrow> n) + int k)\<rparr>"

fun renumber_from :: "nat \<Rightarrow> nat \<Rightarrow> scene list \<Rightarrow> scene list" where
  "renumber_from insert_index k [] = []"
| "renumber_from 0 k (s # ss) = bump_number k s # renumber_from 0 k ss"
| "renumber_from (Suc i) k (s # ss) = s # renumber_from i k ss"

text \<open>
  \<^verbatim>\<open>for i, new_scene in enumerate(scenes_to_insert):
      updated_scenes.insert(insert_index + i, new_scene)\<close>;
  \<^verbatim>\<open>list.insert\<close> at an index beyond the end appends.
\<close>

definition list_insert :: "nat \<Rightarrow> 'a \<Rightarrow> 'a list \<Rightarrow> 'a list" where
  "list_insert i x xs = take i xs @ x # drop i xs"

fun insert_all :: "nat \<Rightarrow> scene list \<Rightarrow> scene list \<Rightarrow> scene list" where
  "insert_all insert_index [] updated_scenes = updated_scenes"
| "insert_all insert_index (s # ss) updated_scenes =
     insert_all (Suc insert_index) ss (list_insert insert_index s updated_scenes)"

definition insert_between :: "int \<Rightarrow> scene list \<Rightarrow> scene list \<Rightarrow> scene list" where
  "insert_between insert_after to_insert updated_scenes =
     (let insert_index =
            (case find_by_number insert_after updated_scenes of
               Some i \<Rightarrow> i + 1
             | None \<Rightarrow> length updated_scenes);
          numbered = assign_numbers insert_after 0 to_insert;
          renumbered = renumber_from insert_index (length to_insert) updated_scenes
      in insert_all insert_index numbered renumbered)"

definition update_specific_scene ::
  "error + scene_change \<Rightarrow> scene list \<Rightarrow> state \<Rightarrow> state \<times> outcome" where
  "update_specific_scene reply original_scenes st =
     (let current_scenes = original_scenes
      in case reply of
           Inl e \<Rightarrow> (st\<lparr>scenes := current_scenes\<rparr>, Failed)
         | Inr change \<Rightarrow>
             (case sc_action change of
                SceneAdd \<Rightarrow>
                  (case new_scene change of
                     Some s \<Rightarrow> (st\<lparr>scenes := current_scenes @ [s]\<rparr>, Applied)
                   | None \<Rightarrow> (st\<lparr>scenes := current_scenes\<rparr>, Warning))
              | InsertBetween \<Rightarrow>
                  (case insert_after_scene change of
                     Some insert_after \<Rightarrow>
                       (if scenes_to_insert change = []
                        then (st\<lparr>scenes := current_scenes\<rparr>, Warning)
                        else (st\<lparr>scenes := insert_between insert_after
                                  (scenes_to_insert change) current_scenes\<rparr>, Applied))
                   | None \<Rightarrow> (st\<lparr>scenes := current_scenes\<rparr>, Warning))
              | SceneModify \<Rightarrow>
                  (case (target_scene_number change, new_scene change) of
                     (Some n, Some s) \<Rightarrow>
                       (if n \<noteq> 0
                        then (case find_by_number n current_scenes of
                                Some i \<Rightarrow> (st\<lparr>scenes := current_scenes[i := s]\<rparr>, Applied)
                              | None \<Rightarrow> (st\<lparr>scenes := current_scenes\<rparr>, Warning))
                        else (st\<lparr>scenes := current_scenes\<rparr>, Warning))
                   | _ \<Rightarrow> (st\<lparr>scenes := current_scenes\<rparr>, Warning))
              | SceneRemove \<Rightarrow>
                  (case target_scene_number change of
                     Some n \<Rightarrow>
                       (if n \<noteq> 0
                        then (case find_by_number n current_scenes of
                                Some i \<Rightarrow> (st\<lparr>scenes := pop i current_scenes\<rparr>, Applied)
                              | None \<Rightarrow> (st\<lparr>scenes := current_scenes\<rparr>, Warning))
                        else (st\<lparr>scenes := current_scenes\<rparr>, Warning))
                   | None \<Rightarrow> (st\<lparr>scenes := current_scenes\<rparr>, Warning))))"

section \<open>The document assembler\<close>

text \<open>
  \<^verbatim>\<open>update_component\<close> makes one call to an external collaborator: a generation node
  for the draft and the visual lookbook, the language model for the four
  collections. What each would answer is gathered in a \<open>proposer\<close>. A node raises
  (\<open>Inl\<close>) or returns a dictionary, of which only the key of the component is read
  (\<open>None\<close> when the dictionary lacks it). The nodes are taken not to mutate the
  state they are given.
\<close>

record proposer =
  create_initial_draft :: "error + string option"
  define_visual_language :: "error + fields option"
  location_reply :: "error + location_change"
  character_reply :: "error + character_change"
  dialogue_reply :: "error + dialogue_change"
  scene_reply :: "error + scene_change"
  regex_sub :: re_sub

definition component_map :: "string \<Rightarrow> string option" where
  "component_map =
     map_of [(''draft'', ''draft_feedback''),
             (''characters'', ''characters_feedback''),
             (''dialogue'', ''dialogue_feedback''),
             (''locations'', ''locations_feedback''),
             (''visual_lookbook'', ''visual_lookbook_feedback''),
             (''scenes'', ''scenes_feedback'')]"

definition increase_keywords :: "string list" where
  "increase_keywords =
     [''add scene'', ''add more scene'', ''need more scene'', ''create more scene'',
      ''insert scene'', ''additional scene'', ''more scenes'', ''expand scenes'',
      ''increase scene count'', ''add another scene'', ''add new scene'']"

text \<open>
  The authorization gate of the scenes branch: the state as it stands right before
  the patch step, with the flag and the preserved scene count written.
\<close>

definition scene_gate :: "string \<Rightarrow> scene list \<Rightarrow> state \<Rightarrow> state" where
  "scene_gate feedback original_scenes st =
     (let original_scene_count = (case number_of_scenes st of None \<Rightarrow> 12 | Some n \<Rightarrow> n);
          current_scene_count =
            (if original_scenes \<noteq> [] then length original_scenes else original_scene_count);
          feedback_lower = lower feedback;
          allow_increase = list_ex (\<lambda>keyword. contains keyword feedback_lower) increase_keywords
      in st\<lparr>allow_scene_increase := Some allow_increase,
            number_of_scenes := Some current_scene_count\<rparr>)"

text \<open>\<^verbatim>\<open>if feedback_key in self.state: del self.state[feedback_key]\<close>\<close>

definition clear_feedback :: "string \<Rightarrow> state \<Rightarrow> state" where
  "clear_feedback feedback_key st = st\<lparr>feedback_keys := (feedback_keys st)(feedback_key := None)\<rparr>"

definition clear_flag :: "state \<Rightarrow> state" where
  "clear_flag st = st\<lparr>allow_scene_increase := None\<rparr>"

text \<open>
  Every key of \<open>component_map\<close> has a branch of its own that returns early, so the
  generic restore block at the end of the method is never reached; the last
  \<open>else\<close> below stands for it and only clears the feedback.
\<close>

definition update_component :: "proposer \<Rightarrow> string \<Rightarrow> string \<Rightarrow> state \<Rightarrow> state" where
  "update_component px component_name feedback st =
     (case component_map component_name of
        None \<Rightarrow> st
      | Some feedback_key \<Rightarrow>
          (let original_locations = locations st;
               original_characters = characters st;
               original_dialogue_scenes = dialogue_scenes st;
               original_scenes = scenes st;
               st1 = st\<lparr>feedback_keys := (feedback_keys st)(feedback_key \<mapsto> feedback)\<rparr>
           in if component_name = ''draft''
              then clear_feedback feedback_key
                     (case create_initial_draft px of
                        Inr (Some d) \<Rightarrow> st1\<lparr>draft := d\<rparr>
                      | _ \<Rightarrow> st1)
              else if component_name = ''locations''
              then clear_feedback feedback_key
                     (fst (update_specific_location (regex_sub px) (location_reply px)
                             original_locations st1))
              else if component_name = ''characters''
              then clear_feedback feedback_key
                     (fst (update_specific_character (character_reply px)
                             original_characters st1))
              else if component_name = ''dialogue''
              then clear_feedback feedback_key
                     (fst (update_specific_dialogue (dialogue_reply px)
                             original_dialogue_scenes st1))
              else if component_name = ''scenes''
              then clear_flag
                     (clear_feedback feedback_key
                        (fst (update_specific_scene (scene_reply px) original_scenes
                                (scene_gate feedback original_scenes st1))))
              else if component_name = ''visual_lookbook''
              then clear_feedback feedback_key
                     (case define_visual_language px of
                        Inr (Some v) \<Rightarrow> st1\<lparr>visual_lookbook := v\<rparr>
                      | _ \<Rightarrow> st1)
              else clear_feedback feedback_key st1))"


text \<open>
  The specification's reading of the rename of a free-text field, after its words
  "replace only the first occurrence": kept apart from the code's \<open>replace_str\<close>, to
  compare the two.
\<close>

fun replace_first :: "string \<Rightarrow> string \<Rightarrow> string \<Rightarrow> string" where
  "replace_first old new [] = (if old = [] then new else [])"
| "replace_first old new (c # cs) =
     (if prefix old (c # cs) then new @ drop (length old) (c # cs)
      else c # replace_first old new cs)"

section \<open>Example documents\<close>

definition harbor :: state where
  "harbor =
     \<lparr>title = ''Harbor Lights'', genre = ''Drama'', tone = ''Somber'',
      draft = ''Elena Cross arrives. Elena Cross waits.'',
      visual_lookbook = [(''palette'', ''teal'')],
      characters = [\<lparr>name = Some ''Elena Cross'', details = [(''role'', ''lead'')]\<rparr>,
                    \<lparr>name = Some ''Bob'', details = [(''role'', ''friend'')]\<rparr>],
      locations = [\<lparr>name = Some ''Cafe'', details = []\<rparr>],
      dialogue_scenes =
        [\<lparr>character_name = Some ''Elena Cross'', dlg_scene_number = Some 1, line = ''Hello.''\<rparr>,
         \<lparr>character_name = Some ''Bob'', dlg_scene_number = Some 1, line = ''Hi.''\<rparr>,
         \<lparr>character_name = Some ''Elena Cross'', dlg_scene_number = Some 2, line = ''Bye.''\<rparr>],
      scenes =
        [\<lparr>scene_number = Some 1, environmental_context = ''A cafe at dusk'',
          subject_action = ''Elena sits. Elena smiles.'', camera = [],
          dialogue_lines =
            [\<lparr>character_name = Some ''Elena Cross'', dlg_scene_number = None,
              line = ''Hello.''\<rparr>]\<rparr>,
         \<lparr>scene_number = Some 2, environmental_context = ''The pier'',
          subject_action = ''Bob leaves.'', camera = [], dialogue_lines = []\<rparr>],
      number_of_scenes = Some 2, allow_scene_increase = None,
      feedback_keys = Map.empty\<rparr>"

definition plain_scene :: "int \<Rightarrow> string \<Rightarrow> scene" where
  "plain_scene n what =
     \<lparr>scene_number = Some n, environmental_context = what, subject_action = [],
      camera = [], dialogue_lines = []\<rparr>"

definition eight_scenes :: "scene list" where
  "eight_scenes =
     [plain_scene 1 ''one'', plain_scene 2 ''two'', plain_scene 3 ''three'',
      plain_scene 4 ''four'', plain_scene 5 ''five'', plain_scene 6 ''six'',
      plain_scene 7 ''seven'', plain_scene 8 ''eight'']"

text \<open>"Insert 2 scenes between scene 1 and 2": the payloads carry temporary numbers.\<close>

definition insert_two :: scene_change where
  "insert_two =
     \<lparr>sc_action = InsertBetween, target_scene_number = None, insert_after_scene = Some 1,
      num_scenes_to_insert = Some 2,
      new_scenes = Some [plain_scene 99 ''new a'', plain_scene 99 ''new b''],
      new_scene = None\<rparr>"

definition insert_after_nine :: scene_change where
  "insert_after_nine =
     \<lparr>sc_action = InsertBetween, target_scene_number = None, insert_after_scene = Some 9,
      num_scenes_to_insert = Some 1, new_scenes = None,
      new_scene = Some (plain_scene 99 ''new'')\<rparr>"

definition three_scenes :: "scene list" where
  "three_scenes = [plain_scene 1 ''one'', plain_scene 2 ''two'', plain_scene 3 ''three'']"

definition add_seven :: scene_change where
  "add_seven =
     \<lparr>sc_action = SceneAdd, target_scene_number = None, insert_after_scene = None,
      num_scenes_to_insert = None, new_scenes = None,
      new_scene = Some (plain_scene 7 ''finale'')\<rparr>"

definition remove_scene :: "int \<Rightarrow> scene_change" where
  "remove_scene n =
     \<lparr>sc_action = SceneRemove, target_scene_number = Some n, insert_after_scene = None,
      num_scenes_to_insert = None, new_scenes = None, new_scene = None\<rparr>"

text \<open>
  A document loaded from a file whose first scene has no number: the loader gives it
  the number 0 (\<^verbatim>\<open>scene.get('scene_number', 0)\<close>).
\<close>

definition zero_scenes :: "scene list" where
  "zero_scenes = [plain_scene 0 ''prologue'', plain_scene 1 ''one'']"

definition remove_location :: "string \<Rightarrow> location_change" where
  "remove_location t = \<lparr>lc_action = Remove, lc_target_name = Some t, new_location = None\<rparr>"

definition modify_character_to :: "string \<Rightarrow> string \<Rightarrow> character_change" where
  "modify_character_to t n =
     \<lparr>cc_action = Modify, cc_target_name = Some t,
      new_character = Some \<lparr>model_name = n, model_details = [(''role'', ''lead'')]\<rparr>\<rparr>"

definition remove_dialogue :: "int option \<Rightarrow> string option \<Rightarrow> dialogue_change" where
  "remove_dialogue idx who =
     \<lparr>dc_action = Remove,
      identification = Some \<lparr>target_index = idx, target_character = who\<rparr>,
      new_dialogue = None, modified_line = None, dc_scene_number = None\<rparr>"

text \<open>
  A stand-in for \<^verbatim>\<open>re.sub\<close> in the examples. For a new name free of backslashes the
  library's substitution of an escaped pattern, ignoring case, is the replacement of
  every non-overlapping match, from the left, of the old name compared in lower case.
\<close>

function ci_replace :: "string \<Rightarrow> string \<Rightarrow> string \<Rightarrow> string" where
  "ci_replace old new s =
     (if old = [] then new @ concat (map (\<lambda>c. c # new) s)
      else if s = [] then []
      else if prefix (lower old) (lower s) then new @ ci_replace old new (drop (length old) s)
      else hd s # ci_replace old new (tl s))"
  by pat_completeness auto
termination
  by (relation "measure (\<lambda>(old, new, s). length s)") auto

declare ci_replace.simps [simp del]

definition literal_sub :: re_sub where
  "literal_sub old_name new_name text = Inr (ci_replace old_name new_name text)"

definition rename_proposer :: "string \<Rightarrow> string \<Rightarrow> proposer" where
  "rename_proposer t n =
     \<lparr>create_initial_draft = Inl LLMError, define_visual_language = Inl LLMError,
      location_reply = Inl LLMError,
      character_reply = Inr (modify_character_to t n),
      dialogue_reply = Inl LLMError, scene_reply = Inr add_seven,
      regex_sub = literal_sub\<rparr>"

definition modify_location_to :: "string \<Rightarrow> string \<Rightarrow> location_change" where
  "modify_location_to t n =
     \<lparr>lc_action = Modify, lc_target_name = Some t,
      new_location = Some \<lparr>model_name = n, model_details = [(''kind'', ''outdoor'')]\<rparr>\<rparr>"

text \<open>
  The example document after the rename of Elena Cross to Mara Cross has been
  propagated; after the propagation towards a blank name has raised at the first
  scene; and after the rename of the cafe to a park has been propagated.
\<close>

definition harbor_mara :: state where
  "harbor_mara =
     harbor\<lparr>
       dialogue_scenes :=
         [\<lparr>character_name = Some ''Mara Cross'', dlg_scene_number = Some 1, line = ''Hello.''\<rparr>,
          \<lparr>character_name = Some ''Bob'', dlg_scene_number = Some 1, line = ''Hi.''\<rparr>,
          \<lparr>character_name = Some ''Mara Cross'', dlg_scene_number = Some 2, line = ''Bye.''\<rparr>],
       scenes :=
         [\<lparr>scene_number = Some 1, environmental_context = ''A cafe at dusk'',
           subject_action = ''Mara sits. Mara smiles.'', camera = [],
           dialogue_lines =
             [\<lparr>character_name = Some ''Mara Cross'', dlg_scene_number = None,
               line = ''Hello.''\<rparr>]\<rparr>,
          \<lparr>scene_number = Some 2, environmental_context = ''The pier'',
           subject_action = ''Bob leaves.'', camera = [], dialogue_lines = []\<rparr>],
       draft := ''Mara Cross arrives. Mara Cross waits.''\<rparr>"

definition harbor_blank :: state where
  "harbor_blank =
     harbor\<lparr>
       dialogue_scenes :=
         [\<lparr>character_name = Some '' '', dlg_scene_number = Some 1, line = ''Hello.''\<rparr>,
          \<lparr>character_name = Some ''Bob'', dlg_scene_number = Some 1, line = ''Hi.''\<rparr>,
          \<lparr>character_name = Some '' '', dlg_scene_number = Some 2, line = ''Bye.''\<rparr>],
       scenes :=
         [\<lparr>scene_number = Some 1, environmental_context = ''A cafe at dusk'',
           subject_action = ''Elena sits. Elena smiles.'', camera = [],
           dialogue_lines =
             [\<lparr>character_name = Some '' '', dlg_scene_number = None, line = ''Hello.''\<rparr>]\<rparr>,
          \<lparr>scene_number = Some 2, environmental_context = ''The pier'',
           subject_action = ''Bob leaves.'', camera = [], dialogue_lines = []\<rparr>]\<rparr>"

definition harbor_park :: state where
  "harbor_park =
     harbor\<lparr>
       scenes :=
         [\<lparr>scene_number = Some 1, environmental_context = ''A Park at dusk'',
           subject_action = ''Elena sits. Elena smiles.'', camera = [],
           dialogue_lines =
             [\<lparr>character_name = Some ''Elena Cross'', dlg_scene_number = None,
               line = ''Hello.''\<rparr>]\<rparr>,
          \<lparr>scene_number = Some 2, environmental_context = ''The pier'',
           subject_action = ''Bob leaves.'', camera = [], dialogue_lines = []\<rparr>]\<rparr>"

text \<open>A cast whose only character has an empty name.\<close>

definition nameless_cast :: "entity list" where
  "nameless_cast = [\<lparr>name = Some [], details = [(''role'', ''extra'')]\<rparr>]"

section \<open>Auxiliary facts\<close>

lemma contains_iff: "contains sub s \<longleftrightarrow> (\<exists>a b. s = a @ sub @ b)"
proof (induction s)
  case Nil
  then show ?case by simp
next
  case (Cons c s)
  show ?case
  proof
    assume "contains sub (c # s)"
    then consider "prefix sub (c # s)" | "contains sub s" by auto
    then show "\<exists>a b. c # s = a @ sub @ b"
    proof cases
      case 1
      then obtain b where "c # s = sub @ b" by (auto simp: prefix_def)
      then have "c # s = [] @ sub @ b" by simp
      then show ?thesis by blast
    next
      case 2
      then obtain a b where "s = a @ sub @ b" using Cons.IH by auto
      then have "c # s = (c # a) @ sub @ b" by simp
      then show ?thesis by blast
    qed
  next
    assume "\<exists>a b. c # s = a @ sub @ b"
    then obtain a b where ab: "c # s = a @ sub @ b" by auto
    show "contains sub (c # s)"
    proof (cases a)
      case Nil
      then have "prefix sub (c # s)" using ab by (simp add: prefix_def)
      then show ?thesis by simp
    next
      case (Cons x a')
      then have "s = a' @ sub @ b" using ab by simp
      then show ?thesis using Cons.IH by auto
    qed
  qed
qed

lemma prefix_short:
  assumes "prefix xs (ys @ zs)" "length xs \<le> length ys"
  shows "prefix xs ys"
  using assms by (auto simp: prefix_append)

text \<open>
  \<open>replace_str\<close> rewrites the first occurrence and goes on in what follows it: it
  replaces every occurrence, not the first one only.
\<close>

lemma replace_str_first_occurrence:
  assumes "old \<noteq> []" "\<not> contains old (a @ butlast old)"
  shows "replace_str old new (a @ old @ b) = a @ new @ replace_str old new b"
  using assms
proof (induction a)
  case Nil
  then show ?case by (subst replace_str.simps) simp
next
  case (Cons x a)
  have np: "\<not> prefix old ((x # a) @ butlast old)" and nc: "\<not> contains old (a @ butlast old)"
    using Cons.prems(2) by simp_all
  have "(x # a) @ old @ b = ((x # a) @ butlast old) @ ([last old] @ b)"
    using Cons.prems(1) by simp
  moreover have "length old \<le> length ((x # a) @ butlast old)" by simp
  ultimately have "\<not> prefix old ((x # a) @ old @ b)"
    using np prefix_short by metis
  then have "replace_str old new ((x # a) @ old @ b) = x # replace_str old new (a @ old @ b)"
    using Cons.prems(1) by (subst replace_str.simps) simp
  then show ?case using Cons.IH [OF Cons.prems(1) nc] by simp
qed

lemma replace_str_absent:
  assumes "\<not> contains old s"
  shows "replace_str old new s = s"
  using assms
proof (induction s)
  case Nil
  then show ?case by (subst replace_str.simps) simp
next
  case (Cons c s)
  then show ?case by (subst replace_str.simps) auto
qed

lemma first_name_nonempty:
  assumes "n \<noteq> []" "first_name n = Inr f"
  shows "f \<noteq> []"
proof (cases "CHR '' '' \<in> set n")
  case True
  then obtain w ws where "split_ws n = w # ws" and "f = w"
    using assms(2) by (auto simp: first_name_def split: list.splits)
  then show ?thesis
    by (subst (asm) split_ws.simps) (auto split: list.splits)
next
  case False
  then show ?thesis using assms by (simp add: first_name_def)
qed

lemma rename_text_full:
  assumes "old \<noteq> []" "\<not> contains old (a @ butlast old)"
  shows "rename_text old new fo fn (a @ old @ b) = a @ new @ replace_str old new b"
proof -
  have "contains old (a @ old @ b)" by (auto simp: contains_iff)
  moreover have "a @ old @ b \<noteq> []" using assms(1) by simp
  ultimately show ?thesis
    using replace_str_first_occurrence [OF assms, of new b] assms(1)
    by (simp add: rename_text_def)
qed

lemma rename_text_first:
  assumes "fo \<noteq> []" "fo \<noteq> old" "\<not> contains old (a @ fo @ b)"
    "\<not> contains fo (a @ butlast fo)"
  shows "rename_text old new fo fn (a @ fo @ b) = a @ fn @ replace_str fo fn b"
proof -
  have "contains fo (a @ fo @ b)" by (auto simp: contains_iff)
  moreover have "a @ fo @ b \<noteq> []" using assms(1) by simp
  ultimately show ?thesis
    using replace_str_first_occurrence [OF assms(1,4), of fn b] assms(1,2,3)
    by (simp add: rename_text_def)
qed

lemma rename_text_none:
  assumes "\<not> contains old t" "fo = old \<or> \<not> contains fo t"
  shows "rename_text old new fo fn t = t"
  using assms by (auto simp: rename_text_def)

lemma rename_dialogue_loop_map:
  "rename_dialogue_loop old new ds =
     map (\<lambda>d. if character_name d = Some old then d\<lparr>character_name := Some new\<rparr> else d) ds"
  by (induction ds) simp_all

lemma rename_scene_loop_ok:
  assumes "first_name old = Inr fo" "first_name new = Inr fn"
  shows "rename_scene_loop old new scs =
     Inr (map (\<lambda>sc. sc\<lparr>dialogue_lines := rename_dialogue_loop old new (dialogue_lines sc),
                        subject_action := rename_text old new fo fn (subject_action sc),
                        environmental_context :=
                          rename_text old new fo fn (environmental_context sc)\<rparr>) scs)"
  using assms by (induction scs) (simp_all add: rename_in_scene_def Let_def)

lemma rename_in_draft_ok:
  assumes "first_name old = Inr fo" "first_name new = Inr fn"
  shows "rename_in_draft old new d = Inr (rename_text old new fo fn d)"
  using assms by (simp add: rename_in_draft_def rename_text_def)

lemma propagate_character_ok:
  assumes "first_name old = Inr fo" "first_name new = Inr fn"
  shows "propagate_character_name_change old new st =
     Inr (st\<lparr>dialogue_scenes :=
               map (\<lambda>d. if character_name d = Some old
                        then d\<lparr>character_name := Some new\<rparr> else d)
                 (dialogue_scenes st),
             scenes :=
               map (\<lambda>sc. sc\<lparr>dialogue_lines :=
                              map (\<lambda>d. if character_name d = Some old
                                       then d\<lparr>character_name := Some new\<rparr> else d)
                                (dialogue_lines sc),
                            subject_action := rename_text old new fo fn (subject_action sc),
                            environmental_context :=
                              rename_text old new fo fn (environmental_context sc)\<rparr>)
                 (scenes st),
             draft := rename_text old new fo fn (draft st)\<rparr>)"
  using assms
  by (simp add: propagate_character_name_change_def Let_def rename_scene_loop_ok [OF assms]
      rename_in_draft_ok [OF assms] rename_dialogue_loop_map)

lemma first_name_elena: "first_name ''Elena Cross'' = Inr ''Elena''"
  by code_simp

lemma first_name_mara: "first_name ''Mara Cross'' = Inr ''Mara''"
  by code_simp

text \<open>
  Beyond ASCII: the capital E with acute accent is lowered, and the no-break space
  separates the words of a name.
\<close>

lemma lower_latin1_capital: "lower (CHR 0xC9 # ''lodie'') = CHR 0xE9 # ''lodie''"
  by (simp add: lower_def lower_char_def latin1_upper_def latin1_lower_def)

lemma find_by_name_latin1:
  "find_by_name (CHR 0xE9 # ''lodie'')
     [\<lparr>name = Some ''Bob'', details = []\<rparr>,
      \<lparr>name = Some (CHR 0xC9 # ''lodie''), details = []\<rparr>] = Some 1"
  by (simp add: get_name_def lower_def lower_char_def latin1_upper_def latin1_lower_def)

lemma first_name_no_break_space: "first_name (''Ann'' @ CHR 0xA0 # ''Lee X'') = Inr ''Ann''"
  by code_simp

lemma first_name_blank_no_break_space: "first_name ('' '' @ [CHR 0xA0]) = Inl IndexError"
  by code_simp

lemma first_name_blank: "first_name '' '' = Inl IndexError"
  by code_simp

lemma rename_text_draft_elena:
  "rename_text ''Elena Cross'' ''Mara Cross'' ''Elena'' ''Mara''
     ''Elena Cross arrives. Elena Cross waits.'' = ''Mara Cross arrives. Mara Cross waits.''"
  by code_simp

lemma rename_text_action_elena:
  "rename_text ''Elena Cross'' ''Mara Cross'' ''Elena'' ''Mara''
     ''Elena sits. Elena smiles.'' = ''Mara sits. Mara smiles.''"
  by code_simp

lemma rename_text_other_elena:
  "rename_text ''Elena Cross'' ''Mara Cross'' ''Elena'' ''Mara'' ''A cafe at dusk'' = ''A cafe at dusk''"
  "rename_text ''Elena Cross'' ''Mara Cross'' ''Elena'' ''Mara'' ''The pier'' = ''The pier''"
  "rename_text ''Elena Cross'' ''Mara Cross'' ''Elena'' ''Mara'' ''Bob leaves.'' = ''Bob leaves.''"
  by code_simp+

lemma find_by_number_Some:
  "find_by_number n scs = Some i \<longleftrightarrow>
     i < length scs \<and> scene_number (scs ! i) = Some n \<and>
     (\<forall>j<i. scene_number (scs ! j) \<noteq> Some n)"
proof (induction scs arbitrary: i)
  case Nil
  then show ?case by simp
next
  case (Cons sc scs)
  show ?case
  proof (cases "scene_number sc = Some n")
    case True
    then show ?thesis by (cases i) auto
  next
    case False
    show ?thesis
    proof (cases i)
      case 0
      then show ?thesis using False by simp
    next
      case (Suc k)
      have "(\<forall>j<Suc k. scene_number ((sc # scs) ! j) \<noteq> Some n) \<longleftrightarrow>
            (\<forall>j<k. scene_number (scs ! j) \<noteq> Some n)"
        using False by (auto simp: less_Suc_eq_0_disj)
      then show ?thesis using False Suc Cons.IH [of k] by auto
    qed
  qed
qed

lemma find_by_number_None:
  "find_by_number n scs = None \<longleftrightarrow> (\<forall>s\<in>set scs. scene_number s \<noteq> Some n)"
  by (induction scs) auto

lemma renumber_from_eq:
  "renumber_from i k scs = take i scs @ map (bump_number k) (drop i scs)"
  by (induction i k scs rule: renumber_from.induct) simp_all

lemma insert_all_eq:
  "i \<le> length xs \<Longrightarrow> insert_all i ns xs = take i xs @ ns @ drop i xs"
proof (induction ns arbitrary: i xs)
  case Nil
  then show ?case by simp
next
  case (Cons n ns)
  have "insert_all i (n # ns) xs = insert_all (Suc i) ns (take i xs @ n # drop i xs)"
    by (simp add: list_insert_def)
  also have "\<dots> = take (Suc i) (take i xs @ n # drop i xs) @ ns @ drop (Suc i) (take i xs @ n # drop i xs)"
    using Cons.prems by (intro Cons.IH) simp
  also have "\<dots> = take i xs @ (n # ns) @ drop i xs"
    using Cons.prems by (simp add: min_absorb2)
  finally show ?case .
qed

lemma assign_numbers_eq:
  "assign_numbers a i ns =
     map (\<lambda>(j, s). s\<lparr>scene_number := Some (a + 1 + int j)\<rparr>) (enumerate i ns)"
  by (induction ns arbitrary: i) simp_all

lemma numbered_nth:
  assumes "map scene_number scs = map Some [1..int (length scs)]" "i < length scs"
  shows "scene_number (scs ! i) = Some (int i + 1)"
proof -
  have "scene_number (scs ! i) = map scene_number scs ! i"
    using assms(2) by simp
  also have "\<dots> = map Some [1..int (length scs)] ! i"
    using assms(1) by simp
  also have "\<dots> = Some ([1..int (length scs)] ! i)"
    using assms(2) by simp
  also have "[1..int (length scs)] ! i = 1 + int i"
    using assms(2) by (intro nth_upto) simp
  finally show ?thesis by (simp add: add.commute)
qed

lemma numbered_intro:
  assumes "\<And>i. i < length scs \<Longrightarrow> scene_number (scs ! i) = Some (int i + 1)"
  shows "map scene_number scs = map Some [1..int (length scs)]"
proof (rule nth_equalityI)
  show "length (map scene_number scs) = length (map Some [1..int (length scs)])"
    by simp
next
  fix i
  assume "i < length (map scene_number scs)"
  then have i: "i < length scs" by simp
  have "[1..int (length scs)] ! i = 1 + int i"
    using i by (intro nth_upto) simp
  then have "map Some [1..int (length scs)] ! i = Some (int i + 1)"
    using i by (simp add: add.commute)
  then show "map scene_number scs ! i = map Some [1..int (length scs)] ! i"
    using i assms [OF i] by simp
qed

lemma length_assign_numbers [simp]: "length (assign_numbers a i ns) = length ns"
  by (induction ns arbitrary: i) simp_all

lemma assign_numbers_nth:
  "j < length ns \<Longrightarrow> scene_number (assign_numbers a i ns ! j) = Some (a + 1 + int (i + j))"
proof (induction ns arbitrary: i j)
  case Nil
  then show ?case by simp
next
  case (Cons n ns)
  show ?case
  proof (cases j)
    case 0
    then show ?thesis by simp
  next
    case (Suc j')
    then have "j' < length ns" using Cons.prems by simp
    from Cons.IH [OF this, of "Suc i"] show ?thesis using Suc by simp
  qed
qed

lemma insert_between_found:
  assumes "find_by_number a scs = Some i"
  shows "insert_between a ns scs =
     take (Suc i) scs @ assign_numbers a 0 ns @ map (bump_number (length ns)) (drop (Suc i) scs)"
proof -
  have i: "Suc i \<le> length scs"
    using assms by (simp add: find_by_number_Some)
  have "insert_between a ns scs =
        insert_all (Suc i) (assign_numbers a 0 ns)
          (take (Suc i) scs @ map (bump_number (length ns)) (drop (Suc i) scs))"
    using assms by (simp add: insert_between_def renumber_from_eq)
  also have "\<dots> = take (Suc i) (take (Suc i) scs @ map (bump_number (length ns)) (drop (Suc i) scs))
       @ assign_numbers a 0 ns
       @ drop (Suc i) (take (Suc i) scs @ map (bump_number (length ns)) (drop (Suc i) scs))"
    using i by (intro insert_all_eq) simp
  also have "\<dots> = take (Suc i) scs @ assign_numbers a 0 ns
       @ map (bump_number (length ns)) (drop (Suc i) scs)"
    using i by (simp add: min_absorb2)
  finally show ?thesis .
qed

lemma insert_between_missing:
  assumes "find_by_number a scs = None"
  shows "insert_between a ns scs = scs @ assign_numbers a 0 ns"
proof -
  have "insert_between a ns scs = insert_all (length scs) (assign_numbers a 0 ns) scs"
    using assms by (simp add: insert_between_def renumber_from_eq)
  also have "\<dots> = scs @ assign_numbers a 0 ns"
    by (simp add: insert_all_eq)
  finally show ?thesis .
qed

lemma numbered_anchor:
  assumes "map scene_number scs = map Some [1..int (length scs)]"
    and "Some a \<in> scene_number ` set scs"
  shows "1 \<le> a \<and> a \<le> int (length scs) \<and> find_by_number a scs = Some (nat a - 1)"
proof -
  have "Some a \<in> set (map scene_number scs)" using assms(2) by simp
  then have "Some a \<in> set (map Some [1..int (length scs)])" using assms(1) by simp
  then have b: "1 \<le> a" "a \<le> int (length scs)" by auto
  let ?i = "nat a - 1"
  have i: "?i < length scs" using b by linarith
  have "scene_number (scs ! ?i) = Some a"
    using numbered_nth [OF assms(1) i] b by simp
  moreover have "\<forall>j<?i. scene_number (scs ! j) \<noteq> Some a"
  proof (intro allI impI)
    fix j assume j: "j < ?i"
    then have "j < length scs" using i by simp
    from numbered_nth [OF assms(1) this] show "scene_number (scs ! j) \<noteq> Some a"
      using j by simp
  qed
  ultimately have "find_by_number a scs = Some ?i"
    using i by (simp add: find_by_number_Some)
  then show ?thesis using b by simp
qed

lemma bump_numbered:
  assumes "scene_number s = Some n"
  shows "bump_number k s = s\<lparr>scene_number := map_option (\<lambda>n. n + int k) (scene_number s)\<rparr>"
  using assms by (simp add: bump_number_def)

lemma numbered_Some:
  assumes "map scene_number scs = map Some [1..int (length scs)]" "s \<in> set scs"
  shows "\<exists>n. scene_number s = Some n"
proof -
  obtain i where "i < length scs" "scs ! i = s"
    using assms(2) by (auto simp: in_set_conv_nth)
  then show ?thesis using numbered_nth [OF assms(1)] by auto
qed

lemma insert_numbered:
  assumes numbered: "map scene_number scs = map Some [1..int (length scs)]"
    and m: "1 \<le> m" "m \<le> length scs"
  shows "map scene_number
           (take m scs @ assign_numbers (int m) 0 ns @ map (bump_number (length ns)) (drop m scs)) =
         map Some [1..int (length scs + length ns)]"
    (is "map scene_number ?r = _")
proof -
  have len: "length ?r = length scs + length ns" using m by simp
  have "map scene_number ?r = map Some [1..int (length ?r)]"
  proof (rule numbered_intro)
    fix i assume "i < length ?r"
    then have i: "i < length scs + length ns" using len by simp
    consider "i < m" | "m \<le> i" "i < m + length ns" | "m + length ns \<le> i" by linarith
    then show "scene_number (?r ! i) = Some (int i + 1)"
    proof cases
      case 1
      then have "?r ! i = scs ! i" using m by (simp add: nth_append)
      then show ?thesis using numbered_nth [OF numbered, of i] 1 m by simp
    next
      case 2
      then have "?r ! i = assign_numbers (int m) 0 ns ! (i - m)"
        using m by (simp add: nth_append min_absorb2)
      moreover have "i - m < length ns" using 2 by simp
      ultimately show ?thesis using assign_numbers_nth [of "i - m" ns "int m" 0] 2 by simp
    next
      case 3
      then have "?r ! i = bump_number (length ns) (scs ! (i - length ns))"
        using m i by (simp add: nth_append min_absorb2)
      moreover have "i - length ns < length scs" using 3 i m by linarith
      ultimately show ?thesis
        using numbered_nth [OF numbered, of "i - length ns"] 3 by (simp add: bump_number_def)
    qed
  qed
  then show ?thesis by (simp only: len)
qed

lemma eight_numbered: "map scene_number eight_scenes = map Some [1..int (length eight_scenes)]"
  by code_simp

lemma three_numbered: "map scene_number three_scenes = map Some [1..int (length three_scenes)]"
  by code_simp

lemma anchor_one: "Some 1 \<in> scene_number ` set eight_scenes"
  by (simp add: eight_scenes_def plain_scene_def)

lemma insert_two_payload:
  "scenes_to_insert insert_two = [plain_scene 99 ''new a'', plain_scene 99 ''new b'']"
  by (simp add: scenes_to_insert_def insert_two_def)

lemma three_collision:
  "Some 0 \<notin> scene_number ` set three_scenes
   \<and> map scene_number three_scenes = map Some [1..int (length three_scenes)]
   \<and> \<not> distinct (map scene_number (insert_between 0 [plain_scene 99 ''new''] three_scenes))
   \<and> map scene_number (insert_between 0 [plain_scene 99 ''new''] three_scenes) \<noteq>
       map Some [1..int (length (insert_between 0 [plain_scene 99 ''new''] three_scenes))]"
  by code_simp

lemma nine_missing: "Some 9 \<notin> scene_number ` set three_scenes"
  by (simp add: three_scenes_def plain_scene_def)

lemma nine_payload: "scenes_to_insert insert_after_nine = [plain_scene 99 ''new'']"
  by (simp add: scenes_to_insert_def insert_after_nine_def)

lemma find_by_name_Some:
  "find_by_name t es = Some i \<longleftrightarrow>
     i < length es \<and> lower (get_name (es ! i)) = lower t \<and>
     (\<forall>j<i. lower (get_name (es ! j)) \<noteq> lower t)"
proof (induction es arbitrary: i)
  case Nil
  then show ?case by simp
next
  case (Cons e es)
  show ?case
  proof (cases "lower (get_name e) = lower t")
    case True
    then show ?thesis by (cases i) auto
  next
    case False
    show ?thesis
    proof (cases i)
      case 0
      then show ?thesis using False by simp
    next
      case (Suc k)
      have "(\<forall>j<Suc k. lower (get_name ((e # es) ! j)) \<noteq> lower t) \<longleftrightarrow>
            (\<forall>j<k. lower (get_name (es ! j)) \<noteq> lower t)"
        using False by (auto simp: less_Suc_eq_0_disj)
      then show ?thesis using False Suc Cons.IH [of k] by auto
    qed
  qed
qed

lemma find_by_name_None:
  "find_by_name t es = None \<longleftrightarrow> (\<forall>e\<in>set es. lower (get_name e) \<noteq> lower t)"
  by (induction es) auto

lemma find_by_character_Some:
  "find_by_character t ds = Some i \<longleftrightarrow>
     i < length ds \<and> lower (get_character_name (ds ! i)) = lower t \<and>
     (\<forall>j<i. lower (get_character_name (ds ! j)) \<noteq> lower t)"
proof (induction ds arbitrary: i)
  case Nil
  then show ?case by simp
next
  case (Cons d ds)
  show ?case
  proof (cases "lower (get_character_name d) = lower t")
    case True
    then show ?thesis by (cases i) auto
  next
    case False
    show ?thesis
    proof (cases i)
      case 0
      then show ?thesis using False by simp
    next
      case (Suc k)
      have "(\<forall>j<Suc k. lower (get_character_name ((d # ds) ! j)) \<noteq> lower t) \<longleftrightarrow>
            (\<forall>j<k. lower (get_character_name (ds ! j)) \<noteq> lower t)"
        using False by (auto simp: less_Suc_eq_0_disj)
      then show ?thesis using False Suc Cons.IH [of k] by auto
    qed
  qed
qed

lemma find_by_character_None:
  "find_by_character t ds = None \<longleftrightarrow> (\<forall>d\<in>set ds. lower (get_character_name d) \<noteq> lower t)"
  by (induction ds) auto

lemma locate_dialogue_None:
  "locate_dialogue ident ds = None \<longleftrightarrow>
     (if truthy_int (target_index ident)
      then (\<forall>n. target_index ident = Some n \<longrightarrow> n < 1 \<or> int (length ds) < n)
      else (\<forall>t. target_character ident = Some t \<longrightarrow> t \<noteq> [] \<longrightarrow>
              (\<forall>d\<in>set ds. lower (get_character_name d) \<noteq> lower t)))"
  by (auto simp: locate_dialogue_def truthy_int_def truthy_str_def find_by_character_None Let_def
      split: option.splits)

lemma location_noop:
  assumes "lc_action lc \<noteq> Add"
    and "\<not> truthy_str (lc_target_name lc) \<or> (lc_action lc = Modify \<and> new_location lc = None)
         \<or> (\<forall>t. lc_target_name lc = Some t \<longrightarrow> (\<forall>e\<in>set ls. lower (get_name e) \<noteq> lower t))"
  shows "update_specific_location rs (Inr lc) ls st = (st\<lparr>locations := ls\<rparr>, Warning, None)"
proof (cases "lc_action lc")
  case Add
  then show ?thesis using assms(1) by simp
next
  case Modify
  then show ?thesis using assms(2)
    by (auto simp: update_specific_location_def modify_location_def truthy_str_def
        find_by_name_None [symmetric] split: option.splits)
next
  case Remove
  then show ?thesis using assms(2)
    by (auto simp: update_specific_location_def truthy_str_def
        find_by_name_None [symmetric] split: option.splits)
qed

lemma character_noop:
  assumes "cc_action cc \<noteq> Add"
    and "\<not> truthy_str (cc_target_name cc) \<or> (cc_action cc = Modify \<and> new_character cc = None)
         \<or> (\<forall>t. cc_target_name cc = Some t \<longrightarrow> (\<forall>e\<in>set cs. lower (get_name e) \<noteq> lower t))"
  shows "update_specific_character (Inr cc) cs st = (st\<lparr>characters := cs\<rparr>, Warning, None)"
proof (cases "cc_action cc")
  case Add
  then show ?thesis using assms(1) by simp
next
  case Modify
  then show ?thesis using assms(2)
    by (auto simp: update_specific_character_def modify_character_def truthy_str_def
        find_by_name_None [symmetric] split: option.splits)
next
  case Remove
  then show ?thesis using assms(2)
    by (auto simp: update_specific_character_def truthy_str_def
        find_by_name_None [symmetric] split: option.splits)
qed

lemma dialogue_noop:
  assumes "dc_action dc \<noteq> Add"
    and "identification dc = None \<or> (dc_action dc = Modify \<and> \<not> truthy_str (modified_line dc))
         \<or> (\<forall>ident. identification dc = Some ident \<longrightarrow> locate_dialogue ident ds = None)"
  shows "update_specific_dialogue (Inr dc) ds st = (st\<lparr>dialogue_scenes := ds\<rparr>, Warning)"
proof (cases "dc_action dc")
  case Add
  then show ?thesis using assms(1) by simp
next
  case Modify
  then show ?thesis using assms(2)
    by (auto simp: update_specific_dialogue_def truthy_str_def split: option.splits)
next
  case Remove
  then show ?thesis using assms(2)
    by (auto simp: update_specific_dialogue_def truthy_str_def split: option.splits)
qed

lemma scene_noop:
  assumes "sc_action sc = SceneModify \<or> sc_action sc = SceneRemove"
    and "\<not> truthy_int (target_scene_number sc) \<or> (sc_action sc = SceneModify \<and> new_scene sc = None)
         \<or> (\<forall>n. target_scene_number sc = Some n \<longrightarrow> (\<forall>s\<in>set scs. scene_number s \<noteq> Some n))"
  shows "update_specific_scene (Inr sc) scs st = (st\<lparr>scenes := scs\<rparr>, Warning)"
  using assms
  by (auto simp: update_specific_scene_def truthy_int_def find_by_number_None [symmetric]
      split: option.splits)

lemma harbor_no_bar: "\<forall>e\<in>set (locations harbor). lower (get_name e) \<noteq> lower ''Harbor Bar''"
  by (simp add: harbor_def get_name_def lower_def lower_char_def latin1_upper_def latin1_lower_def)

lemma harbor_no_zed: "\<forall>e\<in>set (characters harbor). lower (get_name e) \<noteq> lower ''Zed''"
  by (simp add: harbor_def get_name_def lower_def lower_char_def latin1_upper_def latin1_lower_def)

lemma harbor_no_carol:
  "\<forall>d\<in>set (dialogue_scenes harbor). lower (get_character_name d) \<noteq> lower ''Carol''"
  by (simp add: harbor_def get_character_name_def lower_def lower_char_def latin1_upper_def latin1_lower_def)

lemma harbor_no_five: "\<forall>s\<in>set (scenes harbor). scene_number s \<noteq> Some 5"
  by (simp add: harbor_def)

lemma locate_zero_absent:
  assumes "target_index ident = Some 0"
  shows "locate_dialogue ident ds = locate_dialogue (ident\<lparr>target_index := None\<rparr>) ds"
  using assms by (simp add: locate_dialogue_def truthy_int_def)

lemma harbor_bob_second:
  "(1 :: nat) < length (dialogue_scenes harbor)
   \<and> lower (get_character_name (dialogue_scenes harbor ! 1)) = lower ''bob''
   \<and> lower (get_character_name (dialogue_scenes harbor ! 0)) \<noteq> lower ''bob''"
  by (simp add: harbor_def get_character_name_def lower_def lower_char_def latin1_upper_def latin1_lower_def)

lemma component_map_scenes: "component_map ''scenes'' = Some ''scenes_feedback''"
  by (simp add: component_map_def)

lemma length_insert_between:
  "length (insert_between a ns scs) = length scs + length ns"
proof (cases "find_by_number a scs")
  case None
  then show ?thesis by (simp add: insert_between_missing)
next
  case (Some i)
  then have "Suc i \<le> length scs" by (simp add: find_by_number_Some)
  then show ?thesis using Some by (simp add: insert_between_found)
qed


lemma no_keyword_darker:
  "(\<exists>keyword\<in>set increase_keywords. contains keyword (lower ''make scene 2 darker'')) = False"
  unfolding list_ex_iff [symmetric] by code_simp

lemma keyword_add_scene:
  "(\<exists>keyword\<in>set increase_keywords. contains keyword (lower ''Please ADD scene 3'')) = True"
  unfolding list_ex_iff [symmetric] by code_simp

lemma lower_Nil_iff [simp]: "lower s = [] \<longleftrightarrow> s = []"
  by (simp add: lower_def)

lemma found_name:
  assumes "t \<noteq> []" "lower (get_name e) = lower t"
  shows "\<exists>n. name e = Some n \<and> n \<noteq> [] \<and> get_name e = n"
proof -
  have "lower (get_name e) \<noteq> []" using assms by simp
  then have "get_name e \<noteq> []" by simp
  then show ?thesis by (cases "name e") (simp_all add: get_name_def)
qed

lemma modify_character_found:
  assumes "t \<noteq> []" "find_by_name t es = Some i"
  shows "modify_character t p es st =
     (if name (es ! i) = Some (model_name p)
      then (st\<lparr>characters := es[i := model_dump p]\<rparr>, Applied, None)
      else (case propagate_character_name_change (get_name (es ! i)) (model_name p) st of
              Inl (e, st') \<Rightarrow>
                (st'\<lparr>characters := es\<rparr>, Failed, Some (get_name (es ! i), model_name p))
            | Inr st' \<Rightarrow>
                (st'\<lparr>characters := es[i := model_dump p]\<rparr>, Applied,
                 Some (get_name (es ! i), model_name p))))"
proof -
  have "lower (get_name (es ! i)) = lower t"
    using assms(2) by (simp add: find_by_name_Some)
  from found_name [OF assms(1) this] obtain n where "name (es ! i) = Some n" "n \<noteq> []"
    by blast
  then show ?thesis
    using assms(2) by (simp add: modify_character_def truthy_str_def Let_def)
qed

lemma modify_location_found:
  assumes "t \<noteq> []" "find_by_name t es = Some i"
  shows "modify_location rs t p es st =
     (if name (es ! i) = Some (model_name p)
      then (st\<lparr>locations := es[i := model_dump p]\<rparr>, Applied, None)
      else (case propagate_location_name_change rs (get_name (es ! i)) (model_name p) st of
              Inl (e, st') \<Rightarrow>
                (st'\<lparr>locations := es\<rparr>, Failed, Some (get_name (es ! i), model_name p))
            | Inr st' \<Rightarrow>
                (st'\<lparr>locations := es[i := model_dump p]\<rparr>, Applied,
                 Some (get_name (es ! i), model_name p))))"
proof -
  have "lower (get_name (es ! i)) = lower t"
    using assms(2) by (simp add: find_by_name_Some)
  from found_name [OF assms(1) this] obtain n where "name (es ! i) = Some n" "n \<noteq> []"
    by blast
  then show ?thesis
    using assms(2) by (simp add: modify_location_def truthy_str_def Let_def)
qed

lemma propagate_harbor_mara:
  "propagate_character_name_change ''Elena Cross'' ''Mara Cross'' harbor = Inr harbor_mara"
  by (simp add: propagate_character_ok [OF first_name_elena first_name_mara] harbor_def
      harbor_mara_def rename_text_draft_elena rename_text_action_elena rename_text_other_elena)

lemma propagate_harbor_blank:
  "propagate_character_name_change ''Elena Cross'' '' '' harbor = Inl (IndexError, harbor_blank)"
  by (simp add: propagate_character_name_change_def rename_in_scene_def harbor_def
      harbor_blank_def first_name_elena first_name_blank Let_def)

lemma cafe_scene_loop:
  "location_scene_loop literal_sub ''Cafe'' ''Park'' (scenes harbor) = Inr (scenes harbor_park)"
  unfolding harbor_def harbor_park_def by code_simp

lemma cafe_not_in_draft: "contains (lower ''Cafe'') (lower (draft harbor)) = False"
  unfolding harbor_def by code_simp

lemma propagate_harbor_park:
  "propagate_location_name_change literal_sub ''Cafe'' ''Park'' harbor = Inr harbor_park"
proof -
  have "harbor\<lparr>scenes := scenes harbor_park\<rparr> = harbor_park"
    by (simp add: harbor_park_def)
  moreover have "draft (harbor\<lparr>scenes := scenes harbor_park\<rparr>) = draft harbor"
    by simp
  ultimately show ?thesis
    using cafe_not_in_draft
    by (simp add: propagate_location_name_change_def cafe_scene_loop Let_def)
qed

lemma harbor_elena_first:
  "(0 :: nat) < length (characters harbor)
   \<and> lower (get_name (characters harbor ! 0)) = lower ''elena cross''
   \<and> name (characters harbor ! 0) = Some ''Elena Cross''
   \<and> get_name (characters harbor ! 0) = ''Elena Cross''"
  by (simp add: harbor_def get_name_def lower_def lower_char_def latin1_upper_def latin1_lower_def)

lemma harbor_cafe_first:
  "(0 :: nat) < length (locations harbor)
   \<and> lower (get_name (locations harbor ! 0)) = lower ''cafe''
   \<and> name (locations harbor ! 0) = Some ''Cafe''
   \<and> get_name (locations harbor ! 0) = ''Cafe''"
  by (simp add: harbor_def get_name_def lower_def lower_char_def latin1_upper_def latin1_lower_def)

lemma rename_scene_loop_cases:
  "(\<exists>scs'. rename_scene_loop old new scs = Inr scs') \<or>
   (\<exists>e scs'. rename_scene_loop old new scs = Inl (e, scs'))"
  by (cases "rename_scene_loop old new scs") auto












section \<open>Character-rename propagation\<close>

text \<open>
  Claim C1, as the code has it. When neither first name raises, the propagation
  returns normally; every dialogue line, top-level or embedded in a scene, whose
  \<open>character_name\<close> equals the old name exactly gets the new name; each scene's
  \<open>subject_action\<close> and \<open>environmental_context\<close> and the draft are rewritten by
  \<open>rename_text\<close>, and nothing else changes. In a field where the full old name occurs,
  its first occurrence is replaced by the new name and the replacement goes on in
  the rest of the field (every occurrence, not only the first); otherwise, where the
  first name differs from the full name and occurs, the same holds for the first
  names; otherwise the field is unchanged. At most one of the two branches runs.
\<close>

theorem propagate_character_name_change_all_occurrences:
  assumes "old_name \<noteq> []"
    and "first_name old_name = Inr old_first"
    and "first_name new_name = Inr new_first"
  shows "propagate_character_name_change old_name new_name st =
     Inr (st\<lparr>dialogue_scenes :=
               map (\<lambda>d. if character_name d = Some old_name
                        then d\<lparr>character_name := Some new_name\<rparr> else d)
                 (dialogue_scenes st),
             scenes :=
               map (\<lambda>sc. sc\<lparr>dialogue_lines :=
                              map (\<lambda>d. if character_name d = Some old_name
                                       then d\<lparr>character_name := Some new_name\<rparr> else d)
                                (dialogue_lines sc),
                            subject_action :=
                              rename_text old_name new_name old_first new_first
                                (subject_action sc),
                            environmental_context :=
                              rename_text old_name new_name old_first new_first
                                (environmental_context sc)\<rparr>)
                 (scenes st),
             draft := rename_text old_name new_name old_first new_first (draft st)\<rparr>)
   \<and> (\<forall>a b. \<not> contains old_name (a @ butlast old_name) \<longrightarrow>
          rename_text old_name new_name old_first new_first (a @ old_name @ b) =
            a @ new_name @ replace_str old_name new_name b)
   \<and> (\<forall>a b. old_first \<noteq> old_name \<longrightarrow> \<not> contains old_name (a @ old_first @ b) \<longrightarrow>
          \<not> contains old_first (a @ butlast old_first) \<longrightarrow>
          rename_text old_name new_name old_first new_first (a @ old_first @ b) =
            a @ new_first @ replace_str old_first new_first b)
   \<and> (\<forall>t. \<not> contains old_name t \<longrightarrow> (old_first = old_name \<or> \<not> contains old_first t) \<longrightarrow>
          rename_text old_name new_name old_first new_first t = t)"
proof -
  have "old_first \<noteq> []"
    using first_name_nonempty [OF assms(1,2)] .
  then show ?thesis
    using propagate_character_ok [OF assms(2,3), of st] assms(1)
    by (simp add: rename_text_full rename_text_first rename_text_none)
qed

theorem propagate_character_name_change_all_occurrences_witness:
  "''Elena Cross'' \<noteq> []
   \<and> first_name ''Elena Cross'' = Inr ''Elena''
   \<and> first_name ''Mara Cross'' = Inr ''Mara''
   \<and> propagate_character_name_change ''Elena Cross'' ''Mara Cross'' harbor =
       Inr (harbor\<lparr>
         dialogue_scenes :=
           [\<lparr>character_name = Some ''Mara Cross'', dlg_scene_number = Some 1, line = ''Hello.''\<rparr>,
            \<lparr>character_name = Some ''Bob'', dlg_scene_number = Some 1, line = ''Hi.''\<rparr>,
            \<lparr>character_name = Some ''Mara Cross'', dlg_scene_number = Some 2, line = ''Bye.''\<rparr>],
         scenes :=
           [\<lparr>scene_number = Some 1, environmental_context = ''A cafe at dusk'',
             subject_action = ''Mara sits. Mara smiles.'', camera = [],
             dialogue_lines =
               [\<lparr>character_name = Some ''Mara Cross'', dlg_scene_number = None,
                 line = ''Hello.''\<rparr>]\<rparr>,
            \<lparr>scene_number = Some 2, environmental_context = ''The pier'',
             subject_action = ''Bob leaves.'', camera = [], dialogue_lines = []\<rparr>],
         draft := ''Mara Cross arrives. Mara Cross waits.''\<rparr>)"
proof -
  have ne: "''Elena Cross'' \<noteq> []" by simp
  show ?thesis
    using propagate_character_name_change_all_occurrences
      [OF ne first_name_elena first_name_mara, of harbor]
    by (simp add: harbor_def first_name_elena first_name_mara rename_text_draft_elena
        rename_text_action_elena rename_text_other_elena)
qed

text \<open>
  The claim as stated asks for the first occurrence only. The draft of the example
  names Elena Cross twice: the code renames both, the specification's reading one.
\<close>

theorem rename_first_occurrence_only_counterexample:
  "(case propagate_character_name_change ''Elena Cross'' ''Mara Cross'' harbor of
      Inl x \<Rightarrow> None
    | Inr st' \<Rightarrow> Some (draft st')) = Some ''Mara Cross arrives. Mara Cross waits.''
   \<and> replace_first ''Elena Cross'' ''Mara Cross'' (draft harbor) =
       ''Mara Cross arrives. Elena Cross waits.''
   \<and> ''Mara Cross arrives. Mara Cross waits.'' \<noteq> ''Mara Cross arrives. Elena Cross waits.''"
  by (simp add: propagate_character_ok [OF first_name_elena first_name_mara]
      rename_text_draft_elena harbor_def)

section \<open>Scene insertion, addition and removal\<close>

text \<open>
  Claim C3. For a scene list numbered exactly 1..P in ascending order and an
  \<open>insert_between\<close> proposal whose anchor \<open>a\<close> is the number of a scene of the list,
  supplying \<open>k\<close> new scenes: the result is the scenes up to the anchor, then the new
  scenes numbered \<open>a+1 .. a+k\<close>, then the scenes after the anchor in their old order
  with their numbers raised by \<open>k\<close>; it has \<open>P + k\<close> scenes, numbered exactly
  \<open>1 .. P+k\<close> in ascending order, hence without gap or duplicate.
\<close>

theorem insert_between_contiguous:
  assumes "map scene_number scs = map Some [1..int (length scs)]"
    and "Some a \<in> scene_number ` set scs"
    and "sc_action change = InsertBetween"
    and "insert_after_scene change = Some a"
  shows "scenes (fst (update_specific_scene (Inr change) scs st)) =
           take (nat a) scs
           @ map (\<lambda>(j, s). s\<lparr>scene_number := Some (a + 1 + int j)\<rparr>)
               (enumerate 0 (scenes_to_insert change))
           @ map (\<lambda>s. s\<lparr>scene_number :=
                          map_option (\<lambda>n. n + int (length (scenes_to_insert change)))
                            (scene_number s)\<rparr>)
               (drop (nat a) scs)
     \<and> length (scenes (fst (update_specific_scene (Inr change) scs st))) =
         length scs + length (scenes_to_insert change)
     \<and> map scene_number (scenes (fst (update_specific_scene (Inr change) scs st))) =
         map Some [1..int (length scs + length (scenes_to_insert change))]"
proof -
  let ?ns = "scenes_to_insert change"
  let ?new = "map (\<lambda>(j, s). s\<lparr>scene_number := Some (a + 1 + int j)\<rparr>) (enumerate 0 ?ns)"
  let ?later = "map (\<lambda>s. s\<lparr>scene_number := map_option (\<lambda>n. n + int (length ?ns)) (scene_number s)\<rparr>)
                  (drop (nat a) scs)"
  let ?r = "scenes (fst (update_specific_scene (Inr change) scs st))"
  from numbered_anchor [OF assms(1,2)]
  have a: "1 \<le> a" "a \<le> int (length scs)" and found: "find_by_number a scs = Some (nat a - 1)"
    by simp_all
  have suc: "Suc (nat a - 1) = nat a" using a by simp
  have later: "map (bump_number (length ?ns)) (drop (nat a) scs) = ?later"
  proof (rule map_cong [OF refl])
    fix s assume "s \<in> set (drop (nat a) scs)"
    then have "s \<in> set scs" by (rule in_set_dropD)
    then obtain n where "scene_number s = Some n"
      using numbered_Some [OF assms(1)] by blast
    then show "bump_number (length ?ns) s =
        s\<lparr>scene_number := map_option (\<lambda>n. n + int (length ?ns)) (scene_number s)\<rparr>"
      by (rule bump_numbered)
  qed
  have same: "map (bump_number 0) (drop (nat a) scs) = drop (nat a) scs"
  proof (rule map_idI)
    fix s assume "s \<in> set (drop (nat a) scs)"
    then have "s \<in> set scs" by (rule in_set_dropD)
    then obtain n where "scene_number s = Some n"
      using numbered_Some [OF assms(1)] by blast
    then show "bump_number 0 s = s" by (simp add: bump_number_def)
  qed
  have r: "?r = take (nat a) scs @ assign_numbers a 0 ?ns @ map (bump_number (length ?ns)) (drop (nat a) scs)"
  proof (cases "?ns = []")
    case True
    then have "?r = scs" using assms(3,4) by (simp add: update_specific_scene_def)
    then show ?thesis using True same by simp
  next
    case False
    then have "?r = insert_between a ?ns scs"
      using assms(3,4) by (simp add: update_specific_scene_def)
    then show ?thesis using insert_between_found [OF found, of ?ns] suc by simp
  qed
  have eq: "?r = take (nat a) scs @ ?new @ ?later"
    using r later by (simp add: assign_numbers_eq)
  have len: "length ?r = length scs + length ?ns"
    using r a by simp
  have "map scene_number
          (take (nat a) scs @ assign_numbers (int (nat a)) 0 ?ns
             @ map (bump_number (length ?ns)) (drop (nat a) scs)) =
        map Some [1..int (length scs + length ?ns)]"
    using a by (intro insert_numbered [OF assms(1)]) simp_all
  then have nums: "map scene_number ?r = map Some [1..int (length scs + length ?ns)]"
    using r a by simp
  show ?thesis using eq len nums by blast
qed

text \<open>
  The specification's example: eight scenes, two inserted after scene 1; the new
  scenes are numbered 2 and 3, the old scenes 2-8 become 4-10.
\<close>

theorem insert_between_contiguous_witness:
  "map scene_number eight_scenes = map Some [1..int (length eight_scenes)]
   \<and> Some 1 \<in> scene_number ` set eight_scenes
   \<and> sc_action insert_two = InsertBetween
   \<and> insert_after_scene insert_two = Some 1
   \<and> scenes (fst (update_specific_scene (Inr insert_two) eight_scenes harbor)) =
       [plain_scene 1 ''one'', plain_scene 2 ''new a'', plain_scene 3 ''new b'',
        plain_scene 4 ''two'', plain_scene 5 ''three'', plain_scene 6 ''four'',
        plain_scene 7 ''five'', plain_scene 8 ''six'', plain_scene 9 ''seven'',
        plain_scene 10 ''eight'']"
proof -
  have act: "sc_action insert_two = InsertBetween" and after: "insert_after_scene insert_two = Some 1"
    by (simp_all add: insert_two_def)
  show ?thesis
    using insert_between_contiguous [OF eight_numbered anchor_one act after, of harbor]
      eight_numbered anchor_one act after
    by (simp add: insert_two_payload) (simp add: eight_scenes_def plain_scene_def)
qed

text \<open>
  Claim C10. When the anchor of an \<open>insert_between\<close> proposal is the number of no
  scene, the new scenes are appended at the end, still numbered \<open>a+1 .. a+k\<close>, and no
  existing scene is changed. So there are inputs on this path, even with the old
  scenes numbered 1..P, for which the resulting numbers repeat and are not the
  sequence 1..N: three scenes and the anchor 0 give the numbers 1, 2, 3, 1.
\<close>

theorem insert_between_anchor_missing:
  assumes "Some a \<notin> scene_number ` set scs"
    and "sc_action change = InsertBetween"
    and "insert_after_scene change = Some a"
    and "scenes_to_insert change \<noteq> []"
  shows "update_specific_scene (Inr change) scs st =
           (st\<lparr>scenes := scs @ map (\<lambda>(j, s). s\<lparr>scene_number := Some (a + 1 + int j)\<rparr>)
                                  (enumerate 0 (scenes_to_insert change))\<rparr>, Applied)
     \<and> (\<exists>scs' a' ns'.
           Some a' \<notin> scene_number ` set scs'
           \<and> map scene_number scs' = map Some [1..int (length scs')]
           \<and> \<not> distinct (map scene_number (insert_between a' ns' scs'))
           \<and> map scene_number (insert_between a' ns' scs') \<noteq>
               map Some [1..int (length (insert_between a' ns' scs'))])"
proof -
  have "find_by_number a scs = None"
    using assms(1) by (force simp: find_by_number_None)
  then have "insert_between a (scenes_to_insert change) scs =
      scs @ map (\<lambda>(j, s). s\<lparr>scene_number := Some (a + 1 + int j)\<rparr>)
              (enumerate 0 (scenes_to_insert change))"
    by (simp add: insert_between_missing assign_numbers_eq)
  then have "update_specific_scene (Inr change) scs st =
           (st\<lparr>scenes := scs @ map (\<lambda>(j, s). s\<lparr>scene_number := Some (a + 1 + int j)\<rparr>)
                                  (enumerate 0 (scenes_to_insert change))\<rparr>, Applied)"
    using assms(2,3,4) by (simp add: update_specific_scene_def)
  then show ?thesis using three_collision by blast
qed

theorem insert_between_anchor_missing_witness:
  "Some 9 \<notin> scene_number ` set three_scenes
   \<and> sc_action insert_after_nine = InsertBetween
   \<and> insert_after_scene insert_after_nine = Some 9
   \<and> scenes_to_insert insert_after_nine \<noteq> []
   \<and> update_specific_scene (Inr insert_after_nine) three_scenes harbor =
       (harbor\<lparr>scenes := [plain_scene 1 ''one'', plain_scene 2 ''two'', plain_scene 3 ''three'',
                           plain_scene 10 ''new'']\<rparr>, Applied)"
proof -
  have act: "sc_action insert_after_nine = InsertBetween"
    and after: "insert_after_scene insert_after_nine = Some 9"
    by (simp_all add: insert_after_nine_def)
  have ne: "scenes_to_insert insert_after_nine \<noteq> []"
    by (simp add: nine_payload)
  show ?thesis
    using insert_between_anchor_missing [OF nine_missing act after ne, of harbor]
      nine_missing act after ne
    by (simp add: nine_payload) (simp add: three_scenes_def plain_scene_def)
qed

text \<open>
  Claim C4, as the code has it. An \<open>add\<close> proposal with a payload scene appends
  exactly that scene, unchanged, at the end of the list; the scenes before it are
  kept. The code does not number the appended scene: it keeps the number the
  payload carries.
\<close>

theorem scene_add_appends_payload:
  assumes "sc_action change = SceneAdd"
    and "new_scene change = Some s"
  shows "update_specific_scene (Inr change) scs st = (st\<lparr>scenes := scs @ [s]\<rparr>, Applied)"
  using assms by (simp add: update_specific_scene_def)

theorem scene_add_appends_payload_witness:
  "sc_action add_seven = SceneAdd
   \<and> new_scene add_seven = Some (plain_scene 7 ''finale'')
   \<and> update_specific_scene (Inr add_seven) three_scenes harbor =
       (harbor\<lparr>scenes := three_scenes @ [plain_scene 7 ''finale'']\<rparr>, Applied)"
proof -
  have act: "sc_action add_seven = SceneAdd"
    and payload: "new_scene add_seven = Some (plain_scene 7 ''finale'')"
    by (simp_all add: add_seven_def)
  show ?thesis
    using scene_add_appends_payload [OF act payload, of three_scenes harbor] act payload
    by simp
qed

text \<open>
  The claim as stated asks for the number M + 1. Three scenes numbered 1, 2, 3 and a
  payload numbered 7: the appended scene keeps the 7.
\<close>

theorem scene_add_next_number_counterexample:
  "map scene_number three_scenes = [Some 1, Some 2, Some 3]
   \<and> map scene_number (scenes (fst (update_specific_scene (Inr add_seven) three_scenes harbor))) =
       [Some 1, Some 2, Some 3, Some 7]
   \<and> (7 :: int) \<noteq> 3 + 1"
  by (simp add: update_specific_scene_def add_seven_def three_scenes_def plain_scene_def)

text \<open>
  Claim C7, as the code has it. A \<open>remove\<close> proposal whose target number \<open>n\<close> is not 0
  deletes exactly the first scene numbered \<open>n\<close> (the one at the least index \<open>i\<close>
  carrying that number); every other scene is kept as it is, number included, in the
  same order, so the numbering has a gap. A target number 0 counts as no target:
  nothing is removed and a warning is reported.
\<close>

theorem scene_remove_leaves_gap:
  assumes "sc_action change = SceneRemove"
    and "target_scene_number change = Some n"
    and "i < length scs"
    and "scene_number (scs ! i) = Some n"
    and "\<forall>j<i. scene_number (scs ! j) \<noteq> Some n"
  shows "(n \<noteq> 0 \<longrightarrow>
            update_specific_scene (Inr change) scs st =
              (st\<lparr>scenes := take i scs @ drop (Suc i) scs\<rparr>, Applied))
     \<and> (n = 0 \<longrightarrow>
            update_specific_scene (Inr change) scs st = (st\<lparr>scenes := scs\<rparr>, Warning))
     \<and> map scene_number (take i scs @ drop (Suc i) scs) =
         take i (map scene_number scs) @ drop (Suc i) (map scene_number scs)"
proof -
  have "find_by_number n scs = Some i"
    using assms(3,4,5) by (simp add: find_by_number_Some)
  then show ?thesis
    using assms(1,2) by (simp add: update_specific_scene_def pop_def take_map drop_map)
qed

theorem scene_remove_leaves_gap_witness:
  "sc_action (remove_scene 2) = SceneRemove
   \<and> target_scene_number (remove_scene 2) = Some 2
   \<and> (1 :: nat) < length three_scenes
   \<and> scene_number (three_scenes ! 1) = Some 2
   \<and> scene_number (three_scenes ! 0) \<noteq> Some 2
   \<and> update_specific_scene (Inr (remove_scene 2)) three_scenes harbor =
       (harbor\<lparr>scenes := [plain_scene 1 ''one'', plain_scene 3 ''three'']\<rparr>, Applied)"
proof -
  have act: "sc_action (remove_scene 2) = SceneRemove"
    and target: "target_scene_number (remove_scene 2) = Some 2"
    by (simp_all add: remove_scene_def)
  have i: "(1 :: nat) < length three_scenes"
    and at: "scene_number (three_scenes ! 1) = Some 2"
    and before: "\<forall>j<1. scene_number (three_scenes ! j) \<noteq> Some 2"
    by (simp_all add: three_scenes_def plain_scene_def)
  show ?thesis
    using scene_remove_leaves_gap [OF act target i at before, of harbor] act target i at
    by (simp add: three_scenes_def plain_scene_def)
qed

text \<open>
  The claim as stated covers every target number. A list whose first scene is
  numbered 0 and the target 0: the scene is not deleted.
\<close>

theorem scene_remove_zero_counterexample:
  "sc_action (remove_scene 0) = SceneRemove
   \<and> target_scene_number (remove_scene 0) = Some 0
   \<and> scene_number (zero_scenes ! 0) = Some 0
   \<and> update_specific_scene (Inr (remove_scene 0)) zero_scenes harbor =
       (harbor\<lparr>scenes := zero_scenes\<rparr>, Warning)
   \<and> zero_scenes \<noteq> drop 1 zero_scenes"
  by (simp add: update_specific_scene_def remove_scene_def zero_scenes_def plain_scene_def)

section \<open>Unmatched targets and dialogue indices\<close>

text \<open>
  Claim C6. For each of the four collections (locations, characters, dialogue lines,
  scenes), a \<open>modify\<close> or \<open>remove\<close> proposal whose target is missing or matches no
  entity (names compared case-insensitively, scenes by number, dialogue lines by
  index or by the character's name), or a \<open>modify\<close> whose payload is missing, writes
  the original collection back: the state is the one before, no field of the
  document changes, and a warning is reported.
\<close>

theorem unmatched_target_is_noop:
  "(lc_action lc \<noteq> Add \<longrightarrow>
      (\<not> truthy_str (lc_target_name lc) \<or> (lc_action lc = Modify \<and> new_location lc = None)
       \<or> (\<forall>t. lc_target_name lc = Some t \<longrightarrow>
             (\<forall>e\<in>set (locations st). lower (get_name e) \<noteq> lower t))) \<longrightarrow>
      update_specific_location rs (Inr lc) (locations st) st = (st, Warning, None))
   \<and> (cc_action cc \<noteq> Add \<longrightarrow>
      (\<not> truthy_str (cc_target_name cc) \<or> (cc_action cc = Modify \<and> new_character cc = None)
       \<or> (\<forall>t. cc_target_name cc = Some t \<longrightarrow>
             (\<forall>e\<in>set (characters st). lower (get_name e) \<noteq> lower t))) \<longrightarrow>
      update_specific_character (Inr cc) (characters st) st = (st, Warning, None))
   \<and> (dc_action dc \<noteq> Add \<longrightarrow>
      (identification dc = None \<or> (dc_action dc = Modify \<and> \<not> truthy_str (modified_line dc))
       \<or> (\<forall>ident. identification dc = Some ident \<longrightarrow>
             (if truthy_int (target_index ident)
              then (\<forall>n. target_index ident = Some n \<longrightarrow>
                      n < 1 \<or> int (length (dialogue_scenes st)) < n)
              else (\<forall>t. target_character ident = Some t \<longrightarrow> t \<noteq> [] \<longrightarrow>
                      (\<forall>d\<in>set (dialogue_scenes st).
                         lower (get_character_name d) \<noteq> lower t))))) \<longrightarrow>
      update_specific_dialogue (Inr dc) (dialogue_scenes st) st = (st, Warning))
   \<and> (sc_action sc = SceneModify \<or> sc_action sc = SceneRemove \<longrightarrow>
      (\<not> truthy_int (target_scene_number sc)
       \<or> (sc_action sc = SceneModify \<and> new_scene sc = None)
       \<or> (\<forall>n. target_scene_number sc = Some n \<longrightarrow>
             (\<forall>s\<in>set (scenes st). scene_number s \<noteq> Some n))) \<longrightarrow>
      update_specific_scene (Inr sc) (scenes st) st = (st, Warning))"
proof (intro conjI impI)
  assume "lc_action lc \<noteq> Add"
    and "\<not> truthy_str (lc_target_name lc) \<or> (lc_action lc = Modify \<and> new_location lc = None)
       \<or> (\<forall>t. lc_target_name lc = Some t \<longrightarrow>
             (\<forall>e\<in>set (locations st). lower (get_name e) \<noteq> lower t))"
  then show "update_specific_location rs (Inr lc) (locations st) st = (st, Warning, None)"
    using location_noop [of lc "locations st" rs st] by simp
next
  assume "cc_action cc \<noteq> Add"
    and "\<not> truthy_str (cc_target_name cc) \<or> (cc_action cc = Modify \<and> new_character cc = None)
       \<or> (\<forall>t. cc_target_name cc = Some t \<longrightarrow>
             (\<forall>e\<in>set (characters st). lower (get_name e) \<noteq> lower t))"
  then show "update_specific_character (Inr cc) (characters st) st = (st, Warning, None)"
    using character_noop [of cc "characters st" st] by simp
next
  assume "dc_action dc \<noteq> Add"
    and "identification dc = None \<or> (dc_action dc = Modify \<and> \<not> truthy_str (modified_line dc))
       \<or> (\<forall>ident. identification dc = Some ident \<longrightarrow>
             (if truthy_int (target_index ident)
              then (\<forall>n. target_index ident = Some n \<longrightarrow>
                      n < 1 \<or> int (length (dialogue_scenes st)) < n)
              else (\<forall>t. target_character ident = Some t \<longrightarrow> t \<noteq> [] \<longrightarrow>
                      (\<forall>d\<in>set (dialogue_scenes st).
                         lower (get_character_name d) \<noteq> lower t))))"
  then have "update_specific_dialogue (Inr dc) (dialogue_scenes st) st =
      (st\<lparr>dialogue_scenes := dialogue_scenes st\<rparr>, Warning)"
    by (intro dialogue_noop) (simp_all add: locate_dialogue_None)
  then show "update_specific_dialogue (Inr dc) (dialogue_scenes st) st = (st, Warning)"
    by simp
next
  assume "sc_action sc = SceneModify \<or> sc_action sc = SceneRemove"
    and "\<not> truthy_int (target_scene_number sc)
       \<or> (sc_action sc = SceneModify \<and> new_scene sc = None)
       \<or> (\<forall>n. target_scene_number sc = Some n \<longrightarrow>
             (\<forall>s\<in>set (scenes st). scene_number s \<noteq> Some n))"
  then show "update_specific_scene (Inr sc) (scenes st) st = (st, Warning)"
    using scene_noop [of sc "scenes st" st] by simp
qed

theorem unmatched_target_is_noop_witness:
  "update_specific_location literal_sub (Inr (remove_location ''Harbor Bar''))
      (locations harbor) harbor = (harbor, Warning, None)
   \<and> update_specific_character (Inr (modify_character_to ''Zed'' ''Zed Stone''))
      (characters harbor) harbor = (harbor, Warning, None)
   \<and> update_specific_dialogue (Inr (remove_dialogue None (Some ''Carol'')))
      (dialogue_scenes harbor) harbor = (harbor, Warning)
   \<and> update_specific_scene (Inr (remove_scene 5)) (scenes harbor) harbor = (harbor, Warning)"
  using unmatched_target_is_noop
    [where lc = "remove_location ''Harbor Bar''" and st = harbor and rs = literal_sub
       and cc = "modify_character_to ''Zed'' ''Zed Stone''"
       and dc = "remove_dialogue None (Some ''Carol'')" and sc = "remove_scene 5"]
    harbor_no_bar harbor_no_zed harbor_no_carol harbor_no_five
  by (simp add: remove_location_def modify_character_to_def remove_dialogue_def remove_scene_def
      truthy_int_def truthy_str_def)

text \<open>
  Claim C9. A dialogue \<open>modify\<close> or \<open>remove\<close> identified by the 1-based index \<open>n\<close>:
  when \<open>n\<close> is negative or greater than the number of lines, the collection is
  written back unchanged with a warning, whatever else the proposal names. The
  index 0 is treated as absent: the result is the one of the same proposal without
  an index, so it is a warning when no target character is given, and the first line
  of the target character (compared case-insensitively) is removed or modified when
  one is.
\<close>

theorem dialogue_index_edges:
  assumes "identification dc = Some ident"
    and "target_index ident = Some n"
  shows "(dc_action dc \<noteq> Add \<longrightarrow> (n < 0 \<or> int (length ds) < n) \<longrightarrow>
            update_specific_dialogue (Inr dc) ds st = (st\<lparr>dialogue_scenes := ds\<rparr>, Warning))
     \<and> (n = 0 \<longrightarrow>
            update_specific_dialogue (Inr dc) ds st =
            update_specific_dialogue
              (Inr (dc\<lparr>identification := Some (ident\<lparr>target_index := None\<rparr>)\<rparr>)) ds st)
     \<and> (n = 0 \<longrightarrow> dc_action dc \<noteq> Add \<longrightarrow> \<not> truthy_str (target_character ident) \<longrightarrow>
            update_specific_dialogue (Inr dc) ds st = (st\<lparr>dialogue_scenes := ds\<rparr>, Warning))
     \<and> (\<forall>t i. n = 0 \<longrightarrow> dc_action dc = Remove \<longrightarrow>
            target_character ident = Some t \<longrightarrow> t \<noteq> [] \<longrightarrow>
            i < length ds \<longrightarrow> lower (get_character_name (ds ! i)) = lower t \<longrightarrow>
            (\<forall>j<i. lower (get_character_name (ds ! j)) \<noteq> lower t) \<longrightarrow>
            update_specific_dialogue (Inr dc) ds st =
              (st\<lparr>dialogue_scenes := take i ds @ drop (Suc i) ds\<rparr>, Applied))
     \<and> (\<forall>t i text. n = 0 \<longrightarrow> dc_action dc = Modify \<longrightarrow>
            modified_line dc = Some text \<longrightarrow> text \<noteq> [] \<longrightarrow>
            target_character ident = Some t \<longrightarrow> t \<noteq> [] \<longrightarrow>
            i < length ds \<longrightarrow> lower (get_character_name (ds ! i)) = lower t \<longrightarrow>
            (\<forall>j<i. lower (get_character_name (ds ! j)) \<noteq> lower t) \<longrightarrow>
            update_specific_dialogue (Inr dc) ds st =
              (st\<lparr>dialogue_scenes := ds[i := (ds ! i)\<lparr>line := text\<rparr>]\<rparr>, Applied))"
proof (intro conjI impI allI)
  assume "dc_action dc \<noteq> Add" and "n < 0 \<or> int (length ds) < n"
  then have "locate_dialogue ident ds = None"
    using assms(2) by (auto simp: locate_dialogue_def truthy_int_def Let_def)
  then show "update_specific_dialogue (Inr dc) ds st = (st\<lparr>dialogue_scenes := ds\<rparr>, Warning)"
    using \<open>dc_action dc \<noteq> Add\<close> assms(1) by (intro dialogue_noop) simp_all
next
  assume "n = 0"
  then have "locate_dialogue ident ds = locate_dialogue (ident\<lparr>target_index := None\<rparr>) ds"
    using assms(2) by (intro locate_zero_absent) simp
  then show "update_specific_dialogue (Inr dc) ds st =
      update_specific_dialogue
        (Inr (dc\<lparr>identification := Some (ident\<lparr>target_index := None\<rparr>)\<rparr>)) ds st"
    using assms(1)
    by (cases "dc_action dc"; cases "modified_line dc")
       (simp_all add: update_specific_dialogue_def split: option.splits)
next
  assume "n = 0" and "dc_action dc \<noteq> Add" and "\<not> truthy_str (target_character ident)"
  then have "locate_dialogue ident ds = None"
    using assms(2) by (simp add: locate_dialogue_def truthy_int_def)
  then show "update_specific_dialogue (Inr dc) ds st = (st\<lparr>dialogue_scenes := ds\<rparr>, Warning)"
    using \<open>dc_action dc \<noteq> Add\<close> assms(1) by (intro dialogue_noop) simp_all
next
  fix t i
  assume "n = 0" and "dc_action dc = Remove" and "target_character ident = Some t" and "t \<noteq> []"
    and "i < length ds" and "lower (get_character_name (ds ! i)) = lower t"
    and "\<forall>j<i. lower (get_character_name (ds ! j)) \<noteq> lower t"
  then have "locate_dialogue ident ds = Some i"
    using assms(2)
    by (simp add: locate_dialogue_def truthy_int_def truthy_str_def find_by_character_Some)
  then show "update_specific_dialogue (Inr dc) ds st =
      (st\<lparr>dialogue_scenes := take i ds @ drop (Suc i) ds\<rparr>, Applied)"
    using \<open>dc_action dc = Remove\<close> assms(1) by (simp add: update_specific_dialogue_def pop_def)
next
  fix t i and ln :: string
  assume "n = 0" and "dc_action dc = Modify" and "modified_line dc = Some ln" and "ln \<noteq> []"
    and "target_character ident = Some t" and "t \<noteq> []"
    and "i < length ds" and "lower (get_character_name (ds ! i)) = lower t"
    and "\<forall>j<i. lower (get_character_name (ds ! j)) \<noteq> lower t"
  then have "locate_dialogue ident ds = Some i"
    using assms(2)
    by (simp add: locate_dialogue_def truthy_int_def truthy_str_def find_by_character_Some)
  then show "update_specific_dialogue (Inr dc) ds st =
      (st\<lparr>dialogue_scenes := ds[i := (ds ! i)\<lparr>line := ln\<rparr>]\<rparr>, Applied)"
    using \<open>dc_action dc = Modify\<close> \<open>modified_line dc = Some ln\<close> \<open>ln \<noteq> []\<close> assms(1)
    by (simp add: update_specific_dialogue_def set_line_def)
qed

theorem dialogue_index_edges_witness:
  "update_specific_dialogue (Inr (remove_dialogue (Some 7) (Some ''bob'')))
      (dialogue_scenes harbor) harbor = (harbor, Warning)
   \<and> update_specific_dialogue (Inr (remove_dialogue (Some (- 1)) (Some ''bob'')))
      (dialogue_scenes harbor) harbor = (harbor, Warning)
   \<and> update_specific_dialogue (Inr (remove_dialogue (Some 0) None))
      (dialogue_scenes harbor) harbor = (harbor, Warning)
   \<and> update_specific_dialogue (Inr (remove_dialogue (Some 0) (Some ''bob'')))
      (dialogue_scenes harbor) harbor =
      (harbor\<lparr>dialogue_scenes :=
         [\<lparr>character_name = Some ''Elena Cross'', dlg_scene_number = Some 1, line = ''Hello.''\<rparr>,
          \<lparr>character_name = Some ''Elena Cross'', dlg_scene_number = Some 2, line = ''Bye.''\<rparr>]\<rparr>,
       Applied)"
proof -
  have id: "identification (remove_dialogue idx who) =
      Some \<lparr>target_index = idx, target_character = who\<rparr>" for idx who
    by (simp add: remove_dialogue_def)
  have act: "dc_action (remove_dialogue idx who) = Remove" for idx who
    by (simp add: remove_dialogue_def)
  have len: "length (dialogue_scenes harbor) = 3"
    by (simp add: harbor_def)
  have big: "update_specific_dialogue (Inr (remove_dialogue (Some 7) (Some ''bob'')))
      (dialogue_scenes harbor) harbor = (harbor, Warning)"
    using dialogue_index_edges
      [where dc = "remove_dialogue (Some 7) (Some ''bob'')" and n = 7
         and ident = "\<lparr>target_index = Some 7, target_character = Some ''bob''\<rparr>"
         and ds = "dialogue_scenes harbor" and st = harbor]
    by (simp add: id act len)
  have neg: "update_specific_dialogue (Inr (remove_dialogue (Some (- 1)) (Some ''bob'')))
      (dialogue_scenes harbor) harbor = (harbor, Warning)"
    using dialogue_index_edges
      [where dc = "remove_dialogue (Some (- 1)) (Some ''bob'')" and n = "- 1"
         and ident = "\<lparr>target_index = Some (- 1), target_character = Some ''bob''\<rparr>"
         and ds = "dialogue_scenes harbor" and st = harbor]
    by (simp add: id act len)
  have zero: "update_specific_dialogue (Inr (remove_dialogue (Some 0) None))
      (dialogue_scenes harbor) harbor = (harbor, Warning)"
    using dialogue_index_edges
      [where dc = "remove_dialogue (Some 0) None" and n = 0
         and ident = "\<lparr>target_index = Some 0, target_character = None\<rparr>"
         and ds = "dialogue_scenes harbor" and st = harbor,
       THEN conjunct2, THEN conjunct2, THEN conjunct1]
    by (simp add: id act truthy_str_def)
  have "update_specific_dialogue (Inr (remove_dialogue (Some 0) (Some ''bob'')))
      (dialogue_scenes harbor) harbor =
      (harbor\<lparr>dialogue_scenes :=
         take 1 (dialogue_scenes harbor) @ drop (Suc 1) (dialogue_scenes harbor)\<rparr>, Applied)"
    using dialogue_index_edges
      [where dc = "remove_dialogue (Some 0) (Some ''bob'')" and n = 0
         and ident = "\<lparr>target_index = Some 0, target_character = Some ''bob''\<rparr>"
         and ds = "dialogue_scenes harbor" and st = harbor,
       THEN conjunct2, THEN conjunct2, THEN conjunct2, THEN conjunct1]
      harbor_bob_second
    by (simp add: id act)
  then have fall: "update_specific_dialogue (Inr (remove_dialogue (Some 0) (Some ''bob'')))
      (dialogue_scenes harbor) harbor =
      (harbor\<lparr>dialogue_scenes :=
         [\<lparr>character_name = Some ''Elena Cross'', dlg_scene_number = Some 1, line = ''Hello.''\<rparr>,
          \<lparr>character_name = Some ''Elena Cross'', dlg_scene_number = Some 2, line = ''Bye.''\<rparr>]\<rparr>,
       Applied)"
    by (simp add: harbor_def)
  show ?thesis using big neg zero fall by simp
qed

section \<open>The scene-count gate\<close>

text \<open>
  Claim C8. When \<open>update_component\<close> targets the scenes, the state handed to the
  patch step carries the flag \<open>allow_scene_increase\<close>, true exactly when the feedback in
  lower case contains one of the trigger phrases, and the scratch entry
  \<open>scenes_feedback\<close>; both are written right before the patch step and removed before
  the method returns, so the returned state has neither. The flag is guidance only:
  whatever its value, an \<open>add\<close> proposal with a payload appends its scene and an
  \<open>insert_between\<close> proposal lengthens the list by the scenes it supplies.
\<close>

theorem scene_gate_flag_is_transient:
  "allow_scene_increase
      (scene_gate fb (scenes st)
         (st\<lparr>feedback_keys := (feedback_keys st)(''scenes_feedback'' \<mapsto> fb)\<rparr>)) =
     Some (\<exists>keyword\<in>set increase_keywords. contains keyword (lower fb))
   \<and> feedback_keys
        (scene_gate fb (scenes st)
           (st\<lparr>feedback_keys := (feedback_keys st)(''scenes_feedback'' \<mapsto> fb)\<rparr>))
        ''scenes_feedback'' = Some fb
   \<and> update_component px ''scenes'' fb st =
       clear_flag (clear_feedback ''scenes_feedback''
         (fst (update_specific_scene (scene_reply px) (scenes st)
                 (scene_gate fb (scenes st)
                    (st\<lparr>feedback_keys := (feedback_keys st)(''scenes_feedback'' \<mapsto> fb)\<rparr>)))))
   \<and> allow_scene_increase (update_component px ''scenes'' fb st) = None
   \<and> feedback_keys (update_component px ''scenes'' fb st) ''scenes_feedback'' = None
   \<and> (\<forall>change s. scene_reply px = Inr change \<longrightarrow> sc_action change = SceneAdd \<longrightarrow>
          new_scene change = Some s \<longrightarrow>
          scenes (update_component px ''scenes'' fb st) = scenes st @ [s])
   \<and> (\<forall>change a. scene_reply px = Inr change \<longrightarrow> sc_action change = InsertBetween \<longrightarrow>
          insert_after_scene change = Some a \<longrightarrow>
          length (scenes (update_component px ''scenes'' fb st)) =
            length (scenes st) + length (scenes_to_insert change))"
proof -
  let ?pre = "scene_gate fb (scenes st)
       (st\<lparr>feedback_keys := (feedback_keys st)(''scenes_feedback'' \<mapsto> fb)\<rparr>)"
  have flag: "allow_scene_increase ?pre =
      Some (\<exists>keyword\<in>set increase_keywords. contains keyword (lower fb))"
    by (simp add: scene_gate_def Let_def list_ex_iff)
  have key: "feedback_keys ?pre ''scenes_feedback'' = Some fb"
    by (simp add: scene_gate_def Let_def)
  have upd: "update_component px ''scenes'' fb st =
      clear_flag (clear_feedback ''scenes_feedback''
        (fst (update_specific_scene (scene_reply px) (scenes st) ?pre)))"
    by (simp add: update_component_def component_map_scenes Let_def)
  have gone: "allow_scene_increase (update_component px ''scenes'' fb st) = None"
    "feedback_keys (update_component px ''scenes'' fb st) ''scenes_feedback'' = None"
    by (simp_all add: upd clear_flag_def clear_feedback_def)
  have sc: "scenes (update_component px ''scenes'' fb st) =
      scenes (fst (update_specific_scene (scene_reply px) (scenes st) ?pre))"
    by (simp add: upd clear_flag_def clear_feedback_def)
  have add: "scenes (update_component px ''scenes'' fb st) = scenes st @ [s]"
    if "scene_reply px = Inr change" "sc_action change = SceneAdd" "new_scene change = Some s"
    for change s
    using that by (simp add: sc update_specific_scene_def)
  have ins: "length (scenes (update_component px ''scenes'' fb st)) =
      length (scenes st) + length (scenes_to_insert change)"
    if "scene_reply px = Inr change" "sc_action change = InsertBetween"
      "insert_after_scene change = Some a"
    for change a
    using that
    by (cases "scenes_to_insert change = []")
       (simp_all add: sc update_specific_scene_def length_insert_between)
  show ?thesis
    using flag key upd gone add ins by blast
qed

text \<open>
  "make scene 2 darker" has no trigger phrase: the flag is false, and the scene the
  proposal adds is appended all the same.
\<close>

theorem scene_gate_flag_is_transient_witness:
  "allow_scene_increase
      (scene_gate ''make scene 2 darker'' (scenes harbor)
         (harbor\<lparr>feedback_keys :=
            (feedback_keys harbor)(''scenes_feedback'' \<mapsto> ''make scene 2 darker'')\<rparr>)) = Some False
   \<and> allow_scene_increase
      (scene_gate ''Please ADD scene 3'' (scenes harbor)
         (harbor\<lparr>feedback_keys :=
            (feedback_keys harbor)(''scenes_feedback'' \<mapsto> ''Please ADD scene 3'')\<rparr>)) = Some True
   \<and> allow_scene_increase
        (update_component (rename_proposer ''elena cross'' ''Mara Cross'') ''scenes''
           ''make scene 2 darker'' harbor) = None
   \<and> feedback_keys
        (update_component (rename_proposer ''elena cross'' ''Mara Cross'') ''scenes''
           ''make scene 2 darker'' harbor) ''scenes_feedback'' = None
   \<and> scenes (update_component (rename_proposer ''elena cross'' ''Mara Cross'') ''scenes''
           ''make scene 2 darker'' harbor) = scenes harbor @ [plain_scene 7 ''finale'']"
proof -
  have reply: "scene_reply (rename_proposer ''elena cross'' ''Mara Cross'') = Inr add_seven"
    by (simp add: rename_proposer_def)
  have act: "sc_action add_seven = SceneAdd" "new_scene add_seven = Some (plain_scene 7 ''finale'')"
    by (simp_all add: add_seven_def)
  note a = scene_gate_flag_is_transient
    [where fb = "''make scene 2 darker''" and st = harbor
       and px = "rename_proposer ''elena cross'' ''Mara Cross''"]
  note b = scene_gate_flag_is_transient
    [where fb = "''Please ADD scene 3''" and st = harbor
       and px = "rename_proposer ''elena cross'' ''Mara Cross''", THEN conjunct1]
  have c1: "allow_scene_increase
      (scene_gate ''make scene 2 darker'' (scenes harbor)
         (harbor\<lparr>feedback_keys :=
            (feedback_keys harbor)(''scenes_feedback'' \<mapsto> ''make scene 2 darker'')\<rparr>)) = Some False"
    using a [THEN conjunct1] by (simp only: no_keyword_darker)
  have c2: "allow_scene_increase
      (scene_gate ''Please ADD scene 3'' (scenes harbor)
         (harbor\<lparr>feedback_keys :=
            (feedback_keys harbor)(''scenes_feedback'' \<mapsto> ''Please ADD scene 3'')\<rparr>)) = Some True"
    using b by (simp only: keyword_add_scene)
  have c3: "allow_scene_increase
        (update_component (rename_proposer ''elena cross'' ''Mara Cross'') ''scenes''
           ''make scene 2 darker'' harbor) = None"
    using a [THEN conjunct2, THEN conjunct2, THEN conjunct2, THEN conjunct1] .
  have c4: "feedback_keys
        (update_component (rename_proposer ''elena cross'' ''Mara Cross'') ''scenes''
           ''make scene 2 darker'' harbor) ''scenes_feedback'' = None"
    using a [THEN conjunct2, THEN conjunct2, THEN conjunct2, THEN conjunct2, THEN conjunct1] .
  have c5: "scenes (update_component (rename_proposer ''elena cross'' ''Mara Cross'') ''scenes''
           ''make scene 2 darker'' harbor) = scenes harbor @ [plain_scene 7 ''finale'']"
    using a [THEN conjunct2, THEN conjunct2, THEN conjunct2, THEN conjunct2, THEN conjunct2,
             THEN conjunct1] reply act by blast
  show ?thesis using c1 c2 c3 c4 c5 by blast
qed

section \<open>Modification of a named entity\<close>

text \<open>
  Claim C5, as the code has it. For characters and for locations, a \<open>modify\<close>
  proposal with a non-empty target \<open>t\<close> and a complete payload \<open>p\<close>, where \<open>i\<close> is the
  first entity whose name equals \<open>t\<close> in lower case: when the payload keeps the name,
  the entity at \<open>i\<close> is replaced by the whole payload and nothing else changes; when
  the name differs, the rename (old name, new name) is announced and propagated,
  and if the propagation returns, the entity at \<open>i\<close> is replaced by the whole
  payload in the propagated state. If the propagation raises, the original
  collection is written back and the outcome is a failure. A replacement leaves
  every other entity and the order as they were. An empty target counts as no
  target: the collection is written back unchanged and a warning is reported.
\<close>

theorem modify_replaces_whole_entity:
  assumes "t \<noteq> []"
    and "i < length es"
    and "lower (get_name (es ! i)) = lower t"
    and "\<forall>j<i. lower (get_name (es ! j)) \<noteq> lower t"
  shows "(name (es ! i) = Some (model_name p) \<longrightarrow>
            update_specific_character
              (Inr \<lparr>cc_action = Modify, cc_target_name = Some t, new_character = Some p\<rparr>) es st =
              (st\<lparr>characters := es[i := model_dump p]\<rparr>, Applied, None)
          \<and> update_specific_location rs
              (Inr \<lparr>lc_action = Modify, lc_target_name = Some t, new_location = Some p\<rparr>) es st =
              (st\<lparr>locations := es[i := model_dump p]\<rparr>, Applied, None))
     \<and> (name (es ! i) \<noteq> Some (model_name p) \<longrightarrow>
          (\<forall>st'. propagate_character_name_change (get_name (es ! i)) (model_name p) st = Inr st' \<longrightarrow>
             update_specific_character
               (Inr \<lparr>cc_action = Modify, cc_target_name = Some t, new_character = Some p\<rparr>) es st =
               (st'\<lparr>characters := es[i := model_dump p]\<rparr>, Applied,
                Some (get_name (es ! i), model_name p)))
          \<and> (\<forall>e st'. propagate_character_name_change (get_name (es ! i)) (model_name p) st =
                       Inl (e, st') \<longrightarrow>
             update_specific_character
               (Inr \<lparr>cc_action = Modify, cc_target_name = Some t, new_character = Some p\<rparr>) es st =
               (st'\<lparr>characters := es\<rparr>, Failed, Some (get_name (es ! i), model_name p)))
          \<and> (\<forall>st'. propagate_location_name_change rs (get_name (es ! i)) (model_name p) st =
                     Inr st' \<longrightarrow>
             update_specific_location rs
               (Inr \<lparr>lc_action = Modify, lc_target_name = Some t, new_location = Some p\<rparr>) es st =
               (st'\<lparr>locations := es[i := model_dump p]\<rparr>, Applied,
                Some (get_name (es ! i), model_name p)))
          \<and> (\<forall>e st'. propagate_location_name_change rs (get_name (es ! i)) (model_name p) st =
                       Inl (e, st') \<longrightarrow>
             update_specific_location rs
               (Inr \<lparr>lc_action = Modify, lc_target_name = Some t, new_location = Some p\<rparr>) es st =
               (st'\<lparr>locations := es\<rparr>, Failed, Some (get_name (es ! i), model_name p))))
     \<and> length (es[i := model_dump p]) = length es
     \<and> es[i := model_dump p] ! i = model_dump p
     \<and> (\<forall>j<length es. j \<noteq> i \<longrightarrow> es[i := model_dump p] ! j = es ! j)
     \<and> update_specific_character
           (Inr \<lparr>cc_action = Modify, cc_target_name = Some [], new_character = Some p\<rparr>) es st =
           (st\<lparr>characters := es\<rparr>, Warning, None)
     \<and> update_specific_location rs
           (Inr \<lparr>lc_action = Modify, lc_target_name = Some [], new_location = Some p\<rparr>) es st =
           (st\<lparr>locations := es\<rparr>, Warning, None)"
proof -
  have empty_ch: "update_specific_character
      (Inr \<lparr>cc_action = Modify, cc_target_name = Some [], new_character = Some p\<rparr>) es st =
      (st\<lparr>characters := es\<rparr>, Warning, None)"
    by (simp add: update_specific_character_def)
  have empty_lo: "update_specific_location rs
      (Inr \<lparr>lc_action = Modify, lc_target_name = Some [], new_location = Some p\<rparr>) es st =
      (st\<lparr>locations := es\<rparr>, Warning, None)"
    by (simp add: update_specific_location_def)
  have found: "find_by_name t es = Some i"
    using assms(2,3,4) by (simp add: find_by_name_Some)
  have ch: "update_specific_character
      (Inr \<lparr>cc_action = Modify, cc_target_name = Some t, new_character = Some p\<rparr>) es st =
      modify_character t p es st"
    using assms(1) by (simp add: update_specific_character_def)
  have lo: "update_specific_location rs
      (Inr \<lparr>lc_action = Modify, lc_target_name = Some t, new_location = Some p\<rparr>) es st =
      modify_location rs t p es st"
    using assms(1) by (simp add: update_specific_location_def)
  show ?thesis
    using assms(2)
    by (simp add: ch lo empty_ch empty_lo modify_character_found [OF assms(1) found]
        modify_location_found [OF assms(1) found])
qed

text \<open>
  The lookup of "elena cross" finds "Elena Cross"; the payload renames her, and the
  rename reaches the dialogue, the scenes and the draft. The lookup of "cafe" finds
  "Cafe".
\<close>

theorem modify_replaces_whole_entity_witness:
  "''elena cross'' \<noteq> []
   \<and> lower (get_name (characters harbor ! 0)) = lower ''elena cross''
   \<and> update_specific_character (Inr (modify_character_to ''elena cross'' ''Mara Cross''))
       (characters harbor) harbor =
       (harbor_mara\<lparr>characters :=
          [\<lparr>name = Some ''Mara Cross'', details = [(''role'', ''lead'')]\<rparr>,
           \<lparr>name = Some ''Bob'', details = [(''role'', ''friend'')]\<rparr>]\<rparr>,
        Applied, Some (''Elena Cross'', ''Mara Cross''))
   \<and> update_specific_location literal_sub (Inr (modify_location_to ''cafe'' ''Park''))
       (locations harbor) harbor =
       (harbor_park\<lparr>locations := [\<lparr>name = Some ''Park'', details = [(''kind'', ''outdoor'')]\<rparr>]\<rparr>,
        Applied, Some (''Cafe'', ''Park''))"
proof -
  have ne1: "''elena cross'' \<noteq> []" and ne2: "''cafe'' \<noteq> []" by simp_all
  have e0: "(0 :: nat) < length (characters harbor)"
    and e1: "lower (get_name (characters harbor ! 0)) = lower ''elena cross''"
    using harbor_elena_first by blast+
  have e2: "\<forall>j<0. lower (get_name (characters harbor ! j)) \<noteq> lower ''elena cross''"
    by simp
  have c0: "(0 :: nat) < length (locations harbor)"
    and c1: "lower (get_name (locations harbor ! 0)) = lower ''cafe''"
    using harbor_cafe_first by blast+
  have c2: "\<forall>j<0. lower (get_name (locations harbor ! j)) \<noteq> lower ''cafe''"
    by simp
  have ch: "update_specific_character (Inr (modify_character_to ''elena cross'' ''Mara Cross''))
       (characters harbor) harbor =
       (harbor_mara\<lparr>characters := (characters harbor)
          [0 := model_dump \<lparr>model_name = ''Mara Cross'', model_details = [(''role'', ''lead'')]\<rparr>]\<rparr>,
        Applied, Some (''Elena Cross'', ''Mara Cross''))"
    using modify_replaces_whole_entity
      [OF ne1 e0 e1 e2, where st = harbor and rs = literal_sub
         and p = "\<lparr>model_name = ''Mara Cross'', model_details = [(''role'', ''lead'')]\<rparr>",
       THEN conjunct2, THEN conjunct1]
      harbor_elena_first propagate_harbor_mara
    by (simp add: modify_character_to_def)
  have lo: "update_specific_location literal_sub (Inr (modify_location_to ''cafe'' ''Park''))
       (locations harbor) harbor =
       (harbor_park\<lparr>locations := (locations harbor)
          [0 := model_dump \<lparr>model_name = ''Park'', model_details = [(''kind'', ''outdoor'')]\<rparr>]\<rparr>,
        Applied, Some (''Cafe'', ''Park''))"
    using modify_replaces_whole_entity
      [OF ne2 c0 c1 c2, where st = harbor and rs = literal_sub
         and p = "\<lparr>model_name = ''Park'', model_details = [(''kind'', ''outdoor'')]\<rparr>",
       THEN conjunct2, THEN conjunct1]
      harbor_cafe_first propagate_harbor_park
    by (simp add: modify_location_to_def)
  have cs: "(characters harbor)
      [0 := model_dump \<lparr>model_name = ''Mara Cross'', model_details = [(''role'', ''lead'')]\<rparr>] =
      [\<lparr>name = Some ''Mara Cross'', details = [(''role'', ''lead'')]\<rparr>,
       \<lparr>name = Some ''Bob'', details = [(''role'', ''friend'')]\<rparr>]"
    by (simp add: harbor_def model_dump_def)
  have ls: "(locations harbor)
      [0 := model_dump \<lparr>model_name = ''Park'', model_details = [(''kind'', ''outdoor'')]\<rparr>] =
      [\<lparr>name = Some ''Park'', details = [(''kind'', ''outdoor'')]\<rparr>]"
    by (simp add: harbor_def model_dump_def)
  show ?thesis using ne1 e1 ch lo by (simp only: cs ls) simp
qed

text \<open>
  The claim as stated covers every target identifier. An empty target counts as no
  target: the character whose name is empty, which it equals, is not replaced.
\<close>

theorem modify_empty_target_counterexample:
  "lower (get_name (nameless_cast ! 0)) = lower []
   \<and> update_specific_character (Inr (modify_character_to [] ''Zed Stone''))
       nameless_cast harbor = (harbor\<lparr>characters := nameless_cast\<rparr>, Warning, None)
   \<and> nameless_cast \<noteq>
       nameless_cast
         [0 := model_dump \<lparr>model_name = ''Zed Stone'', model_details = [(''role'', ''lead'')]\<rparr>]"
  by (simp add: update_specific_character_def modify_character_to_def nameless_cast_def
      get_name_def model_dump_def)

text \<open>
  When the propagation raises, the collection is rolled back although the dialogue
  lines already carry the new name: a payload whose name is a single space makes the
  computation of the first name raise \<^verbatim>\<open>IndexError\<close> at the first scene.
\<close>

lemma modify_rolled_back_on_raise:
  "lower (get_name (characters harbor ! 0)) = lower ''elena cross''
   \<and> update_specific_character (Inr (modify_character_to ''elena cross'' '' ''))
       (characters harbor) harbor =
       (harbor_blank, Failed, Some (''Elena Cross'', '' ''))
   \<and> characters harbor_blank = characters harbor
   \<and> characters harbor_blank \<noteq>
       (characters harbor)
         [0 := model_dump \<lparr>model_name = '' '', model_details = [(''role'', ''lead'')]\<rparr>]"
proof -
  have "(0 :: nat) < length (characters harbor)"
    and "lower (get_name (characters harbor ! 0)) = lower ''elena cross''"
    using harbor_elena_first by blast+
  then have found: "find_by_name ''elena cross'' (characters harbor) = Some 0"
    by (subst find_by_name_Some) simp
  have ne: "''elena cross'' \<noteq> []" by simp
  have same: "harbor_blank\<lparr>characters := characters harbor\<rparr> = harbor_blank"
    by (simp add: harbor_blank_def)
  have r: "update_specific_character (Inr (modify_character_to ''elena cross'' '' ''))
       (characters harbor) harbor =
       (harbor_blank, Failed, Some (''Elena Cross'', '' ''))"
    using harbor_elena_first propagate_harbor_blank same
    by (simp add: update_specific_character_def modify_character_to_def
        modify_character_found [OF ne found])
  have k: "characters harbor_blank = characters harbor"
    by (simp add: harbor_blank_def)
  have "characters harbor \<noteq>
       (characters harbor)
         [0 := model_dump \<lparr>model_name = '' '', model_details = [(''role'', ''lead'')]\<rparr>]"
    by (simp add: harbor_def model_dump_def)
  then have d: "characters harbor_blank \<noteq>
       (characters harbor)
         [0 := model_dump \<lparr>model_name = '' '', model_details = [(''role'', ''lead'')]\<rparr>]"
    unfolding k .
  have m: "lower (get_name (characters harbor ! 0)) = lower ''elena cross''"
    using harbor_elena_first by blast
  from m r k d show ?thesis by (intro conjI)
qed

section \<open>Preservation of the components that are not targeted\<close>




end
